theory Spec2Isabelle
  imports Main "HOL-Library.Word" "HOL-Library.Char_ord" "HOL-Library.List_Lexorder"
begin

section \<open>Matchers and their translation (proto/prom/find.go)\<close>

text \<open>
  The matcher type of the Prometheus \<open>labels\<close> package, which the repository imports.
  \<open>MatchType_String\<close> is its \<open>String()\<close> method, the text the translation switches on.
\<close>

datatype MatchType = MatchEqual | MatchNotEqual | MatchRegexp | MatchNotRegexp

fun MatchType_String :: "MatchType \<Rightarrow> string" where
  "MatchType_String MatchEqual = ''=''"
| "MatchType_String MatchNotEqual = ''!=''"
| "MatchType_String MatchRegexp = ''=~''"
| "MatchType_String MatchNotRegexp = ''!~''"

record Matcher =
  Type :: MatchType
  Name :: string
  Value :: string

type_synonym labels_map = "string \<rightharpoonup> string"

text \<open>
  The body of the \<open>for _, matcher := range matchers\<close> loop of \<open>processMatchers\<close>, on the
  pair of local variables \<open>(className, labels)\<close>. \<open>fmt.Sprintf("~(?!%s).*", v)\<close> is
  the concatenation written out.
\<close>

definition processMatchers_step :: "Matcher \<Rightarrow> string \<times> labels_map \<Rightarrow> string \<times> labels_map" where
  "processMatchers_step matcher st =
     (case st of (className, labels) \<Rightarrow>
        if Name matcher = ''__name__'' then (Value matcher, labels)
        else
          let labelsValue =
                (if MatchType_String (Type matcher) = ''=~'' then ''~'' @ Value matcher
                 else if MatchType_String (Type matcher) = ''!=''
                       \<or> MatchType_String (Type matcher) = ''!~''
                      then ''~(?!'' @ Value matcher @ '').*''
                 else Value matcher)
          in (className, labels(Name matcher \<mapsto> labelsValue)))"

fun processMatchers_loop :: "Matcher list \<Rightarrow> string \<times> labels_map \<Rightarrow> string \<times> labels_map" where
  "processMatchers_loop [] st = st"
| "processMatchers_loop (matcher # matchers) st =
     processMatchers_loop matchers (processMatchers_step matcher st)"

definition processMatchers :: "Matcher list \<Rightarrow> string \<times> labels_map" where
  "processMatchers matchers = processMatchers_loop matchers ('''', Map.empty)"

section \<open>Collaborators outside the source files\<close>

text \<open>
  The record the backend returns (\<open>core.GeoTimeSeries\<close>): the handlers read its class
  name, its labels and its attributes.
\<close>

record GeoTimeSeries =
  Class :: string
  Labels :: labels_map
  Attrs :: labels_map

text \<open>
  \<open>time.Time\<close> is an instant, here in nanoseconds from the Unix epoch, and
  \<open>time.Duration\<close> is Go's signed 64-bit count of nanoseconds, whose negation wraps.
  \<open>zeroTime\<close> is \<open>time.Time{}\<close>, the first instant of year 1, and \<open>time_Unix sec\<close> is
  \<open>time.Unix(sec, 0)\<close>, which stores \<open>sec + 62135596800\<close> (the seconds from year 1) in
  64 bits, so that the sum wraps. Instants are unbounded integers: the saturation of
  \<open>Add\<close> at the ends of the range of \<open>time.Time\<close>, billions of years away, is not
  modelled.
\<close>

type_synonym Time = int
type_synonym Duration = "64 word"

definition Hour :: Duration where
  "Hour = 3600000000000"

definition Time_Add :: "Time \<Rightarrow> Duration \<Rightarrow> Time" where
  "Time_Add t d = t + sint d"

definition Time_Before :: "Time \<Rightarrow> Time \<Rightarrow> bool" where
  "Time_Before t u = (t < u)"

definition Time_After :: "Time \<Rightarrow> Time \<Rightarrow> bool" where
  "Time_After t u = (u < t)"

definition zeroTime :: Time where
  "zeroTime = - 62135596800 * 1000000000"

definition time_Unix :: "64 word \<Rightarrow> Time" where
  "time_Unix sec = (sint (sec + 62135596800) - 62135596800) * 1000000000"

text \<open>
  The functions the handlers call and the source files do not define: the selector
  parser (\<open>queryPromql.ParseMetricSelector\<close>, an error message or the matchers), the
  selector builder followed by its \<open>String()\<close>, the deduplication helper \<open>unique\<close>, Go's
  \<open>strings.TrimSpace\<close>, \<open>time.ParseDuration\<close> and \<open>strconv.ParseInt\<close> (base 10, 64 bits),
  and the order in which Go's \<open>range\<close> visits the keys of a map used as a set, which the
  language leaves open. They are parameters of the model.
\<close>

record externals =
  ParseMetricSelector :: "string \<Rightarrow> string + Matcher list"
  buildWarp10Selector :: "string \<Rightarrow> labels_map \<Rightarrow> string"
  unique :: "string list \<Rightarrow> string list"
  TrimSpace :: "string \<Rightarrow> string"
  ParseDuration :: "string \<Rightarrow> Duration option"
  ParseInt :: "string \<Rightarrow> 64 word option"
  range_keys :: "string set \<Rightarrow> string list"

text \<open>
  The backend behind \<open>warpServer.FindGTS(token, selector, p)\<close>: its answer to a call may
  depend on the calls made before it. \<open>FindGTS\<close> appends the call to the log of calls,
  so that a handler's result carries every query it sent. The third argument is a start
  time in find.go and a \<open>core.FindParameters\<close> in the later revision.
\<close>

type_synonym 'p find_call = "string \<times> string \<times> 'p"
type_synonym 'p warp10 = "'p find_call list \<Rightarrow> 'p find_call \<Rightarrow> string + GeoTimeSeries list"

definition FindGTS ::
  "'p warp10 \<Rightarrow> 'p find_call list \<Rightarrow> string \<Rightarrow> string \<Rightarrow> 'p
   \<Rightarrow> (string + GeoTimeSeries list) \<times> 'p find_call list" where
  "FindGTS warp calls token selector p =
     (warp calls (token, selector, p), calls @ [(token, selector, p)])"

text \<open>
  What a handler of find.go reads from the HTTP request: the token
  (\<open>core.RetrieveToken(r)\<close>), the label of the URI (\<open>ctx.Param("label")\<close>), whether
  \<open>r.ParseForm()\<close> fails, the \<open>match[]\<close> values of the form and of the URL query, and the
  \<open>start\<close> parameter. What it answers: an error with its status code
  (\<open>respondWithError\<close>, or \<open>ctx.JSON\<close> of an \<open>error\<close> object), or a
  \<open>prometheusFindLabelsResponse\<close> with its status code. Logging is left out.
\<close>

record request =
  req_token :: string
  req_label :: string
  req_parse_form_fails :: bool
  req_form_match :: "string list"
  req_query_match :: "string list"
  req_query_start :: string

datatype response =
  ErrorResponse (resp_code: nat) (resp_error: string)
| FindLabelsResponse (resp_code: nat) (resp_status: string) (resp_data: "string list")

section \<open>Label values (FindLabelsValues, proto/prom/find.go)\<close>

text \<open>
  The loop over the returned series appends to \<open>resp.Data\<close>: the class name when the
  requested label is \<open>__name__\<close>, else the value of the label when the series has it.
\<close>

fun FindLabelsValues_loop :: "string \<Rightarrow> GeoTimeSeries list \<Rightarrow> string list \<Rightarrow> string list" where
  "FindLabelsValues_loop labelValue [] data = data"
| "FindLabelsValues_loop labelValue (gts # gtss) data =
     (if labelValue = ''__name__'' then FindLabelsValues_loop labelValue gtss (data @ [Class gts])
      else case Labels gts labelValue of
             Some v \<Rightarrow> FindLabelsValues_loop labelValue gtss (data @ [v])
           | None \<Rightarrow> FindLabelsValues_loop labelValue gtss data)"

definition FindLabelsValues ::
  "externals \<Rightarrow> Time warp10 \<Rightarrow> request \<Rightarrow> response \<times> Time find_call list" where
  "FindLabelsValues ext warp r =
     (let token = req_token r in
      if length token = 0
      then (ErrorResponse 403 ''unauthorized, please provide a READ token'', [])
      else
        let labelValue = req_label r in
        if length labelValue = 0 then (ErrorResponse 400 ''unprocessable Entity: label'', [])
        else if req_parse_form_fails r then (ErrorResponse 400 ''failed to parse form data'', [])
        else
          let matchers = req_form_match r in
          if length matchers = 0 then (FindLabelsResponse 200 ''success'' [], [])
          else
            case ParseMetricSelector ext (matchers ! 0) of
              Inl err \<Rightarrow> (ErrorResponse 400 err, [])
            | Inr matcherObjs \<Rightarrow>
                (case processMatchers matcherObjs of
                   (classname, labels) \<Rightarrow>
                     let findQuery = buildWarp10Selector ext classname labels in
                     (case FindGTS warp [] token findQuery zeroTime of
                        (Inl err, calls) \<Rightarrow> (ErrorResponse 500 err, calls)
                      | (Inr gtss, calls) \<Rightarrow>
                          (FindLabelsResponse 200 ''success''
                             (unique ext (FindLabelsValues_loop labelValue gtss [])), calls))))"

section \<open>Label names (FindLabels, proto/prom/find.go)\<close>

text \<open>
  \<open>labelSet\<close> is a Go map used as a set. The inner loop adds the label keys of each
  series, except \<open>.app\<close>, and all its attribute keys; the outer loop runs one query for
  each expression and stops at the first error.
\<close>

fun FindLabels_gts_loop :: "GeoTimeSeries list \<Rightarrow> string set \<Rightarrow> string set" where
  "FindLabels_gts_loop [] labelSet = labelSet"
| "FindLabels_gts_loop (gts # gtss) labelSet =
     FindLabels_gts_loop gtss
       ((labelSet \<union> {key \<in> dom (Labels gts). key \<noteq> ''.app''}) \<union> dom (Attrs gts))"

fun FindLabels_loop ::
  "externals \<Rightarrow> Time warp10 \<Rightarrow> string \<Rightarrow> string list \<Rightarrow> string set \<Rightarrow> Time find_call list
   \<Rightarrow> (response + string set) \<times> Time find_call list" where
  "FindLabels_loop ext warp token [] labelSet calls = (Inr labelSet, calls)"
| "FindLabels_loop ext warp token (matcher # matchers) labelSet calls =
     (case ParseMetricSelector ext matcher of
        Inl err \<Rightarrow> (Inl (ErrorResponse 400 (''invalid matcher format: '' @ err)), calls)
      | Inr matcherObjs \<Rightarrow>
          (case processMatchers matcherObjs of
             (className, labels) \<Rightarrow>
               let findQuery = buildWarp10Selector ext className labels in
               (case FindGTS warp calls token findQuery zeroTime of
                  (Inl err, calls') \<Rightarrow>
                    (Inl (ErrorResponse 500 ''internal server error while searching for series''),
                     calls')
                | (Inr gtss, calls') \<Rightarrow>
                    FindLabels_loop ext warp token matchers
                      (FindLabels_gts_loop gtss (insert ''__name__'' labelSet)) calls')))"

definition FindLabels ::
  "externals \<Rightarrow> Time warp10 \<Rightarrow> request \<Rightarrow> response \<times> Time find_call list" where
  "FindLabels ext warp r =
     (let token = req_token r in
      if length token = 0
      then (ErrorResponse 403 ''unauthorized, please provide a READ token'', [])
      else if req_parse_form_fails r then (ErrorResponse 400 ''failed to parse form data'', [])
      else
        let matchers = req_form_match r in
        if length matchers = 0 then (FindLabelsResponse 200 ''success'' [], [])
        else
          case FindLabels_loop ext warp token matchers {} [] of
            (Inl resp, calls) \<Rightarrow> (resp, calls)
          | (Inr labelSet, calls) \<Rightarrow>
              (FindLabelsResponse 200 ''success'' (range_keys ext labelSet), calls))"

section \<open>Metric names (FindClassnames with primitive parameters)\<close>

text \<open>
  The revision of the endpoint that defines the default selector (the last source file
  of src/unnamed/part_000). It takes the token, the matcher expressions, the start time
  and the label of the URI as arguments and returns the series, the status code and the
  error (\<open>None\<close> for \<open>nil\<close>). The start time is a parameter the body never uses.
  \<open>core.FindParameters\<close> is known by the one field the code sets.
\<close>

definition DEFAULT_METRIC_SELECTOR :: string where
  "DEFAULT_METRIC_SELECTOR = ''(http|prometheus).*''"

definition DEFAULT_METRIC_SELECTOR_GCOUNT :: int where
  "DEFAULT_METRIC_SELECTOR_GCOUNT = 100"

definition MAX_GCOUNT_PER_FIND :: int where
  "MAX_GCOUNT_PER_FIND = 200"

record FindParameters =
  GCount :: int

text \<open>
  The inner loop over the matchers of one expression: \<open>Inl\<close> is the early return with
  its message, \<open>Inr\<close> the value of \<open>hasNameMatcher\<close> when the loop ends.
\<close>

fun FindClassnames_name_loop :: "externals \<Rightarrow> Matcher list \<Rightarrow> bool \<Rightarrow> string + bool" where
  "FindClassnames_name_loop ext [] hasNameMatcher = Inr hasNameMatcher"
| "FindClassnames_name_loop ext (m # ms) hasNameMatcher =
     (if Name m = ''__name__'' then
        if Value m = DEFAULT_METRIC_SELECTOR then FindClassnames_name_loop ext ms True
        else if length (TrimSpace ext (Value m)) < 7
             then Inl ''search must contain at least 3 characters''
        else FindClassnames_name_loop ext ms True
      else FindClassnames_name_loop ext ms hasNameMatcher)"

text \<open>The body of the first loop for one expression: the error it returns with, if any.\<close>

definition FindClassnames_check :: "externals \<Rightarrow> string \<Rightarrow> (nat \<times> string) option" where
  "FindClassnames_check ext matcher =
     (case ParseMetricSelector ext matcher of
        Inl err \<Rightarrow> Some (400, ''invalid matcher format: '' @ err)
      | Inr matcherObjs \<Rightarrow>
          (case FindClassnames_name_loop ext matcherObjs False of
             Inl msg \<Rightarrow> Some (400, msg)
           | Inr hasNameMatcher \<Rightarrow>
               if \<not> hasNameMatcher then Some (400, ''query must include a matcher for __name__'')
               else None))"

fun FindClassnames_validate_loop :: "externals \<Rightarrow> string list \<Rightarrow> (nat \<times> string) option" where
  "FindClassnames_validate_loop ext [] = None"
| "FindClassnames_validate_loop ext (matcher # matchers) =
     (case FindClassnames_check ext matcher of
        Some e \<Rightarrow> Some e
      | None \<Rightarrow> FindClassnames_validate_loop ext matchers)"

text \<open>
  The selector of one expression in the second loop. The parse error is dropped there
  (\<open>matcherObjs, _ :=\<close>), which leaves no matchers.
\<close>

definition FindClassnames_selector :: "externals \<Rightarrow> string \<Rightarrow> string \<Rightarrow> string" where
  "FindClassnames_selector ext uriLabel matcher =
     (let matcherObjs = (case ParseMetricSelector ext matcher of Inl err \<Rightarrow> [] | Inr ms \<Rightarrow> ms)
      in case processMatchers matcherObjs of
           (className, labels) \<Rightarrow>
             let labels = (if uriLabel \<noteq> '''' \<and> uriLabel \<noteq> ''__name__''
                           then labels(uriLabel \<mapsto> ''~.*'') else labels);
                 findQuery = buildWarp10Selector ext className labels
             in ''~'' @ findQuery)"

fun FindClassnames_query_loop ::
  "externals \<Rightarrow> FindParameters warp10 \<Rightarrow> string \<Rightarrow> FindParameters \<Rightarrow> string \<Rightarrow> string list
   \<Rightarrow> GeoTimeSeries list \<Rightarrow> FindParameters find_call list
   \<Rightarrow> (GeoTimeSeries list \<times> nat \<times> string option) \<times> FindParameters find_call list" where
  "FindClassnames_query_loop ext warp token params uriLabel [] resp calls =
     ((resp, 200, None), calls)"
| "FindClassnames_query_loop ext warp token params uriLabel (matcher # matchers) resp calls =
     (let selector = FindClassnames_selector ext uriLabel matcher in
      case FindGTS warp calls token selector params of
        (Inl err, calls') \<Rightarrow>
          ((resp, 500, Some ''internal server error while searching for series''), calls')
      | (Inr gtss, calls') \<Rightarrow>
          FindClassnames_query_loop ext warp token params uriLabel matchers (resp @ gtss) calls')"

definition FindClassnames ::
  "externals \<Rightarrow> FindParameters warp10 \<Rightarrow> string \<Rightarrow> string list \<Rightarrow> Time \<Rightarrow> string
   \<Rightarrow> (GeoTimeSeries list \<times> nat \<times> string option) \<times> FindParameters find_call list" where
  "FindClassnames ext warp token matchers startTime uriLabel =
     (let resp = [];
          params = \<lparr>GCount = 0\<rparr>;
          (matchers, params) =
            (if length matchers = 0
             then (matchers @ [''{__name__=~'' @ [CHR 0x27] @ DEFAULT_METRIC_SELECTOR
                               @ [CHR 0x27] @ ''}''],
                   params\<lparr>GCount := DEFAULT_METRIC_SELECTOR_GCOUNT\<rparr>)
             else (matchers, params))
      in case FindClassnames_validate_loop ext matchers of
           Some (status, err) \<Rightarrow> ((resp, status, Some err), [])
         | None \<Rightarrow> FindClassnames_query_loop ext warp token params uriLabel matchers resp [])"

section \<open>Metric names, the echo handler (FindClassnames, proto/prom/find.go)\<close>

text \<open>
  The revision of the endpoint in find.go reads the request itself. It has no default
  selector: an empty list of expressions is answered at once, and the length check has
  no exemption. Its second loop computes the selector as the later revision does, so
  \<open>FindClassnames_selector\<close> stands for those lines here too.
\<close>

fun FindClassnames_echo_name_loop :: "externals \<Rightarrow> Matcher list \<Rightarrow> bool \<Rightarrow> string + bool" where
  "FindClassnames_echo_name_loop ext [] hasNameMatcher = Inr hasNameMatcher"
| "FindClassnames_echo_name_loop ext (m # ms) hasNameMatcher =
     (if Name m = ''__name__'' then
        if length (TrimSpace ext (Value m)) < 7
        then Inl ''Search must contain at least 3 characters''
        else FindClassnames_echo_name_loop ext ms True
      else FindClassnames_echo_name_loop ext ms hasNameMatcher)"

definition FindClassnames_echo_check :: "externals \<Rightarrow> string \<Rightarrow> response option" where
  "FindClassnames_echo_check ext matcher =
     (case ParseMetricSelector ext matcher of
        Inl err \<Rightarrow> Some (ErrorResponse 400 (''invalid matcher format: '' @ err))
      | Inr matcherObjs \<Rightarrow>
          (case FindClassnames_echo_name_loop ext matcherObjs False of
             Inl msg \<Rightarrow> Some (ErrorResponse 400 msg)
           | Inr hasNameMatcher \<Rightarrow>
               if \<not> hasNameMatcher
               then Some (ErrorResponse 400 ''query must include a matcher for __name__'')
               else None))"

fun FindClassnames_echo_validate_loop :: "externals \<Rightarrow> string list \<Rightarrow> response option" where
  "FindClassnames_echo_validate_loop ext [] = None"
| "FindClassnames_echo_validate_loop ext (matcher # matchers) =
     (case FindClassnames_echo_check ext matcher of
        Some resp \<Rightarrow> Some resp
      | None \<Rightarrow> FindClassnames_echo_validate_loop ext matchers)"

fun FindClassnames_echo_query_loop ::
  "externals \<Rightarrow> Time warp10 \<Rightarrow> string \<Rightarrow> Time \<Rightarrow> string \<Rightarrow> string list \<Rightarrow> string list
   \<Rightarrow> Time find_call list \<Rightarrow> (response + string list) \<times> Time find_call list" where
  "FindClassnames_echo_query_loop ext warp token startTime uriLabel [] data calls =
     (Inr data, calls)"
| "FindClassnames_echo_query_loop ext warp token startTime uriLabel (matcher # matchers) data calls =
     (let selector = FindClassnames_selector ext uriLabel matcher in
      case FindGTS warp calls token selector startTime of
        (Inl err, calls') \<Rightarrow>
          (Inl (ErrorResponse 500 ''internal server error while searching for series''), calls')
      | (Inr gtss, calls') \<Rightarrow>
          FindClassnames_echo_query_loop ext warp token startTime uriLabel matchers
            (data @ map Class gtss) calls')"

definition FindClassnames_echo ::
  "externals \<Rightarrow> Time warp10 \<Rightarrow> request \<Rightarrow> response \<times> Time find_call list" where
  "FindClassnames_echo ext warp r =
     (let token = req_token r in
      if length token = 0
      then (ErrorResponse 403 ''unauthorized, please provide a READ token'', [])
      else
        let matchers = req_query_match r in
        if length matchers = 0 then (FindLabelsResponse 200 ''success'' [], [])
        else
          case FindClassnames_echo_validate_loop ext matchers of
            Some resp \<Rightarrow> (resp, [])
          | None \<Rightarrow>
              (case (if req_query_start r \<noteq> ''''
                     then (case ParseInt ext (req_query_start r) of
                             None \<Rightarrow> Inl (ErrorResponse 400 ''failed to parse start time'')
                           | Some startTimeSec \<Rightarrow> Inr (time_Unix startTimeSec))
                     else Inr zeroTime) of
                 Inl resp \<Rightarrow> (resp, [])
               | Inr startTime \<Rightarrow>
                   (case FindClassnames_echo_query_loop ext warp token startTime (req_label r)
                           matchers [] [] of
                      (Inl resp, calls) \<Rightarrow> (resp, calls)
                    | (Inr data, calls) \<Rightarrow>
                        (FindLabelsResponse 200 ''success'' (unique ext data), calls))))"

section \<open>The time window (applyTimeRangeLimits)\<close>

text \<open>
  The function takes the requested start time and reads everything else from the
  process: the two configured strings through \<open>viper.GetString\<close> and the clock through
  two calls of \<open>time.Now()\<close>. The process state is a record: the configuration, the
  successive readings of the clock, and how many have been taken.
\<close>

record world =
  viper_GetString :: "string \<Rightarrow> string"
  clock :: "nat \<Rightarrow> Time"
  ticks :: nat

definition time_Now :: "world \<Rightarrow> Time \<times> world" where
  "time_Now w = (clock w (ticks w), w\<lparr>ticks := Suc (ticks w)\<rparr>)"

text \<open>
  The two configured durations: the string read from the configuration, parsed, and the
  default when it does not parse (24 hours for the minimum, 7 days for the maximum).
\<close>

definition minDuration_of :: "externals \<Rightarrow> world \<Rightarrow> Duration" where
  "minDuration_of ext w =
     (let minTimeRangeStr = viper_GetString w ''warp10.find.activeafter.min''
      in case ParseDuration ext minTimeRangeStr of None \<Rightarrow> 24 * Hour | Some d \<Rightarrow> d)"

definition maxDuration_of :: "externals \<Rightarrow> world \<Rightarrow> Duration" where
  "maxDuration_of ext w =
     (let maxTimeRangeStr = viper_GetString w ''warp10.find.activeafter.max''
      in case ParseDuration ext maxTimeRangeStr of None \<Rightarrow> 7 * 24 * Hour | Some d \<Rightarrow> d)"

definition applyTimeRangeLimits :: "externals \<Rightarrow> world \<Rightarrow> Time \<Rightarrow> Time \<times> world" where
  "applyTimeRangeLimits ext w startTime =
     (let minDuration = minDuration_of ext w;
          maxDuration = maxDuration_of ext w;
          (now1, w1) = time_Now w;
          minAllowedTime = Time_Add now1 (- maxDuration);
          (now2, w2) = time_Now w1;
          maxAllowedTime = Time_Add now2 (- minDuration)
      in if Time_Before startTime minAllowedTime then (minAllowedTime, w2)
         else if Time_After startTime maxAllowedTime then (maxAllowedTime, w2)
         else (startTime, w2))"

section \<open>Example collaborators and inputs\<close>

text \<open>
  Concrete collaborators on which the theorems below are run: a parser that knows a few
  selector expressions, a builder that prints the class name and the \<open>env\<close> constraint, a
  trimming of blanks, a backend that answers a READ token with two series, and process
  states with a fixed clock.
\<close>

definition example_ParseDuration :: "string \<Rightarrow> Duration option" where
  "example_ParseDuration s =
     (if s = ''1h'' then Some Hour
      else if s = ''48h'' then Some (48 * Hour)
      else None)"

definition example_ParseMetricSelector :: "string \<Rightarrow> string + Matcher list" where
  "example_ParseMetricSelector s =
     (if s = ''{__name__=~'(http|prometheus).*'}''
      then Inr [\<lparr>Type = MatchRegexp, Name = ''__name__'', Value = ''(http|prometheus).*''\<rparr>]
      else if s = ''{__name__=~'abc'}''
      then Inr [\<lparr>Type = MatchRegexp, Name = ''__name__'', Value = ''abc''\<rparr>]
      else if s = ''{__name__=~'.*cpu.*'}''
      then Inr [\<lparr>Type = MatchRegexp, Name = ''__name__'', Value = ''.*cpu.*''\<rparr>]
      else if s = ''http_requests_total{env='prod'}''
      then Inr [\<lparr>Type = MatchEqual, Name = ''env'', Value = ''prod''\<rparr>,
                \<lparr>Type = MatchEqual, Name = ''__name__'', Value = ''http_requests_total''\<rparr>]
      else if s = ''http_requests_total''
      then Inr [\<lparr>Type = MatchEqual, Name = ''__name__'', Value = ''http_requests_total''\<rparr>]
      else if s = ''{env='prod'}''
      then Inr [\<lparr>Type = MatchEqual, Name = ''env'', Value = ''prod''\<rparr>]
      else Inl ''parse error'')"

definition example_buildWarp10Selector :: "string \<Rightarrow> labels_map \<Rightarrow> string" where
  "example_buildWarp10Selector className labels =
     className @ ''{'' @ (case labels ''env'' of None \<Rightarrow> '''' | Some v \<Rightarrow> ''env='' @ v) @ ''}''"

definition example_TrimSpace :: "string \<Rightarrow> string" where
  "example_TrimSpace s =
     rev (dropWhile (\<lambda>c. c = CHR '' '') (rev (dropWhile (\<lambda>c. c = CHR '' '') s)))"

definition example_ext :: externals where
  "example_ext =
     \<lparr>ParseMetricSelector = example_ParseMetricSelector,
      buildWarp10Selector = example_buildWarp10Selector,
      unique = (\<lambda>xs. rev (remdups (rev xs))),
      TrimSpace = example_TrimSpace,
      ParseDuration = example_ParseDuration,
      ParseInt = (\<lambda>s. None),
      range_keys = sorted_list_of_set\<rparr>"

definition example_series :: "GeoTimeSeries list" where
  "example_series =
     [\<lparr>Class = ''http_requests_total'',
       Labels = [''env'' \<mapsto> ''prod'', ''.app'' \<mapsto> ''metrics''],
       Attrs = [''dc'' \<mapsto> ''par'']\<rparr>,
      \<lparr>Class = ''http_errors_total'',
       Labels = [''env'' \<mapsto> ''prod''],
       Attrs = Map.empty\<rparr>]"

definition example_warp :: "'p warp10" where
  "example_warp history call =
     (if fst call = ''READ'' then Inr example_series else Inl ''backend error'')"

definition example_world :: world where
  "example_world = \<lparr>viper_GetString = (\<lambda>k. ''''), clock = (\<lambda>n. 1700000000000000000), ticks = 0\<rparr>"

definition example_world_later :: world where
  "example_world_later =
     \<lparr>viper_GetString = (\<lambda>k. ''''), clock = (\<lambda>n. 1800000000000000000), ticks = 0\<rparr>"

definition example_world_48h :: world where
  "example_world_48h =
     \<lparr>viper_GetString = (\<lambda>k. if k = ''warp10.find.activeafter.min'' then ''48h'' else ''''),
      clock = (\<lambda>n. 1700000000000000000), ticks = 0\<rparr>"

definition example_world_1h_max :: world where
  "example_world_1h_max =
     \<lparr>viper_GetString = (\<lambda>k. if k = ''warp10.find.activeafter.max'' then ''1h'' else ''''),
      clock = (\<lambda>n. 1700000000000000000), ticks = 0\<rparr>"

definition example_world_busy :: world where
  "example_world_busy =
     \<lparr>viper_GetString = (\<lambda>k. if k = ''warp_endpoint'' then ''http://localhost'' else ''''),
      clock = (\<lambda>n. if n < 7 then 1700000000000000000 else 1800000000000000000), ticks = 5\<rparr>"


definition example_request :: request where
  "example_request =
     \<lparr>req_token = ''READ'', req_label = ''dc'', req_parse_form_fails = False,
      req_form_match = [''{env='prod'}'', ''http_requests_total''],
      req_query_match = [], req_query_start = ''''\<rparr>"

section \<open>Properties of the matcher translation\<close>

lemma processMatchers_loop_append:
  "processMatchers_loop (xs @ ys) st = processMatchers_loop ys (processMatchers_loop xs st)"
  by (induction xs arbitrary: st) simp_all

lemma processMatchers_step_labels_other:
  "Name m \<noteq> k \<Longrightarrow> snd (processMatchers_step m st) k = snd st k"
  by (cases st) (simp add: processMatchers_step_def Let_def)

lemma processMatchers_step_className:
  "fst (processMatchers_step m st) = (if Name m = ''__name__'' then Value m else fst st)"
  by (cases st) (simp add: processMatchers_step_def Let_def)

lemma processMatchers_step_no_name_key:
  "snd st ''__name__'' = None \<Longrightarrow> snd (processMatchers_step m st) ''__name__'' = None"
  by (cases st) (simp add: processMatchers_step_def Let_def)

lemma processMatchers_loop_labels_other:
  "\<forall>m \<in> set ms. Name m \<noteq> k \<Longrightarrow>
   snd (processMatchers_loop ms st) k = snd st k"
proof (induction ms arbitrary: st)
  case Nil
  then show ?case by simp
next
  case (Cons m ms)
  have "snd (processMatchers_step m st) k = snd st k"
    using Cons.prems by (simp add: processMatchers_step_labels_other)
  moreover have "snd (processMatchers_loop ms (processMatchers_step m st)) k
      = snd (processMatchers_step m st) k"
    using Cons.prems by (intro Cons.IH) simp
  ultimately show ?case by simp
qed

lemma processMatchers_step_stores:
  "Name m \<noteq> ''__name__'' \<Longrightarrow>
   snd (processMatchers_step m st) (Name m) =
     Some (case Type m of
             MatchEqual \<Rightarrow> Value m
           | MatchRegexp \<Rightarrow> ''~'' @ Value m
           | MatchNotEqual \<Rightarrow> ''~(?!'' @ Value m @ '').*''
           | MatchNotRegexp \<Rightarrow> ''~(?!'' @ Value m @ '').*'')"
  by (cases st; cases "Type m") (simp_all add: processMatchers_step_def)

lemma processMatchers_loop_no_name_key:
  "snd st ''__name__'' = None \<Longrightarrow> snd (processMatchers_loop ms st) ''__name__'' = None"
proof (induction ms arbitrary: st)
  case Nil
  then show ?case by simp
next
  case (Cons m ms)
  have "snd (processMatchers_step m st) ''__name__'' = None"
    using Cons.prems by (rule processMatchers_step_no_name_key)
  then show ?case using Cons.IH by simp
qed

lemma processMatchers_loop_className:
  "fst (processMatchers_loop ms st) =
     (case filter (\<lambda>m. Name m = ''__name__'') ms of
        [] \<Rightarrow> fst st
      | m # fs \<Rightarrow> Value (last (m # fs)))"
proof (induction ms arbitrary: st)
  case Nil
  then show ?case by simp
next
  case (Cons m ms)
  show ?case
  proof (cases "Name m = ''__name__''")
    case True
    then have "fst (processMatchers_step m st) = Value m"
      by (simp add: processMatchers_step_className)
    then show ?thesis using True Cons.IH [of "processMatchers_step m st"]
      by (simp split: list.splits)
  next
    case False
    then have "fst (processMatchers_step m st) = fst st"
      by (simp add: processMatchers_step_className)
    then show ?thesis using False Cons.IH [of "processMatchers_step m st"]
      by (simp split: list.splits)
  qed
qed

text \<open>
  Claim C1. For every matcher list, a matcher whose label name is not the reserved
  \<open>__name__\<close> label stores under its label name exactly the encoded constraint: the value
  itself for Equal, the value prefixed with \<open>~\<close> for RegexMatch, and \<open>~(?!value).*\<close> for
  NotEqual and for RegexNotMatch. The entry is the one read from the returned map unless
  a later matcher of the same list carries the same label name and overwrites it.
\<close>

theorem processMatchers_constraint_encoding:
  assumes "Name m \<noteq> ''__name__''"
    and "\<forall>m' \<in> set after. Name m' \<noteq> Name m"
  shows "snd (processMatchers (before @ m # after)) (Name m) =
     Some (case Type m of
             MatchEqual \<Rightarrow> Value m
           | MatchRegexp \<Rightarrow> ''~'' @ Value m
           | MatchNotEqual \<Rightarrow> ''~(?!'' @ Value m @ '').*''
           | MatchNotRegexp \<Rightarrow> ''~(?!'' @ Value m @ '').*'')"
proof -
  let ?st = "processMatchers_loop before ('''', Map.empty)"
  have "snd (processMatchers (before @ m # after)) (Name m)
      = snd (processMatchers_loop after (processMatchers_step m ?st)) (Name m)"
    by (simp add: processMatchers_def processMatchers_loop_append)
  also have "\<dots> = snd (processMatchers_step m ?st) (Name m)"
    using assms(2) by (rule processMatchers_loop_labels_other)
  finally show ?thesis
    using processMatchers_step_stores [OF assms(1)] by simp
qed

theorem processMatchers_constraint_encoding_witness:
  "snd (processMatchers
          [\<lparr>Type = MatchEqual, Name = ''__name__'', Value = ''test_metric''\<rparr>,
           \<lparr>Type = MatchNotRegexp, Name = ''env'', Value = ''prod|dev''\<rparr>,
           \<lparr>Type = MatchRegexp, Name = ''region'', Value = ''us.*''\<rparr>]) ''env''
     = Some ''~(?!prod|dev).*''"
  using processMatchers_constraint_encoding
    [of "\<lparr>Type = MatchNotRegexp, Name = ''env'', Value = ''prod|dev''\<rparr>"
        "[\<lparr>Type = MatchRegexp, Name = ''region'', Value = ''us.*''\<rparr>]"
        "[\<lparr>Type = MatchEqual, Name = ''__name__'', Value = ''test_metric''\<rparr>]"]
  by simp

text \<open>
  Claim C2. For every matcher list the returned class-name pattern is the value of the
  last matcher named \<open>__name__\<close>, and the empty string when there is none; the empty list
  gives the empty string and the empty map; and \<open>__name__\<close> is never a key of the returned
  label-constraint map.
\<close>

theorem processMatchers_className_last_wins:
  "fst (processMatchers ms) =
     (case filter (\<lambda>m. Name m = ''__name__'') ms of
        [] \<Rightarrow> ''''
      | m # fs \<Rightarrow> Value (last (m # fs)))
   \<and> processMatchers [] = ('''', Map.empty)
   \<and> ''__name__'' \<notin> dom (snd (processMatchers ms))"
proof -
  have "fst (processMatchers ms) =
     (case filter (\<lambda>m. Name m = ''__name__'') ms of
        [] \<Rightarrow> ''''
      | m # fs \<Rightarrow> Value (last (m # fs)))"
    using processMatchers_loop_className [of ms "('''', Map.empty)"]
    by (simp add: processMatchers_def split: list.splits)
  moreover have "processMatchers [] = ('''', Map.empty)"
    by (simp add: processMatchers_def)
  moreover have "''__name__'' \<notin> dom (snd (processMatchers ms))"
    using processMatchers_loop_no_name_key [of "('''', Map.empty)" ms]
    by (simp add: processMatchers_def domIff)
  ultimately show ?thesis by blast
qed

section \<open>Properties of the time window\<close>

lemma sint_uminus_Duration:
  assumes "sint (d::Duration) \<noteq> - (2 ^ 63)"
  shows "sint (- d) = - sint d"
proof -
  have "- (2 ^ 63) \<le> sint d" "sint d < 2 ^ 63"
    using sint_ge [of d] sint_lt [of d] by simp_all
  then have "- (2 ^ 63) \<le> - sint d \<and> - sint d < 2 ^ 63"
    using assms by linarith
  then have "signed_take_bit 63 (- sint d) = - sint d"
    by (simp add: signed_take_bit_int_eq_self_iff)
  then show ?thesis by (simp add: sint_word_minus)
qed

lemma applyTimeRangeLimits_result:
  "fst (applyTimeRangeLimits ext w t) =
     (let lo = clock w (ticks w) + sint (- maxDuration_of ext w);
          hi = clock w (Suc (ticks w)) + sint (- minDuration_of ext w)
      in if t < lo then lo else if hi < t then hi else t)"
  by (simp add: applyTimeRangeLimits_def time_Now_def Time_Add_def Time_Before_def
      Time_After_def Let_def)

text \<open>
  Claim C3. With minimum lookback \<open>m\<close> and maximum lookback \<open>M\<close> (the configured
  durations, or the defaults of 24 hours and 7 days), the clamp returns \<open>now - M\<close> for a
  requested time earlier than \<open>now - M\<close>, \<open>now - m\<close> for one later than \<open>now - m\<close>, and
  the requested time otherwise. The code reads the clock once for each bound: \<open>now1\<close> is
  the reading used for the lower bound, \<open>now2\<close> the one used for the upper bound. The
  window is assumed non-empty and the durations are not the least 64-bit value, whose
  negation wraps. With 24 hours and 7 days and one instant \<open>now\<close>: \<open>now - 30d\<close> gives
  \<open>now - 7d\<close>, \<open>now - 1h\<close> gives \<open>now - 24h\<close>, and \<open>now - 3d\<close> is unchanged.
\<close>

theorem applyTimeRangeLimits_clamps:
  assumes "sint (minDuration_of ext w) = m" and "sint (maxDuration_of ext w) = M"
    and "m \<noteq> - (2 ^ 63)" and "M \<noteq> - (2 ^ 63)"
    and "clock w (ticks w) = now1" and "clock w (Suc (ticks w)) = now2"
    and "now1 - M \<le> now2 - m"
  shows "(t < now1 - M \<longrightarrow> fst (applyTimeRangeLimits ext w t) = now1 - M)
       \<and> (now2 - m < t \<longrightarrow> fst (applyTimeRangeLimits ext w t) = now2 - m)
       \<and> (now1 - M \<le> t \<and> t \<le> now2 - m \<longrightarrow> fst (applyTimeRangeLimits ext w t) = t)
       \<and> (m = 24 * 3600000000000 \<and> M = 7 * 24 * 3600000000000 \<and> now1 = now2 \<longrightarrow>
            fst (applyTimeRangeLimits ext w (now1 - 30 * 24 * 3600000000000))
              = now1 - 7 * 24 * 3600000000000
          \<and> fst (applyTimeRangeLimits ext w (now1 - 3600000000000))
              = now1 - 24 * 3600000000000
          \<and> fst (applyTimeRangeLimits ext w (now1 - 3 * 24 * 3600000000000))
              = now1 - 3 * 24 * 3600000000000)"
proof -
  have lo: "clock w (ticks w) + sint (- maxDuration_of ext w) = now1 - M"
    using assms(2,4,5) sint_uminus_Duration [of "maxDuration_of ext w"] by simp
  have hi: "clock w (Suc (ticks w)) + sint (- minDuration_of ext w) = now2 - m"
    using assms(1,3,6) sint_uminus_Duration [of "minDuration_of ext w"] by simp
  have res: "fst (applyTimeRangeLimits ext w t) =
      (if t < now1 - M then now1 - M else if now2 - m < t then now2 - m else t)" for t
    by (simp add: applyTimeRangeLimits_result lo hi Let_def)
  show ?thesis using assms(7) by (simp add: res)
qed

theorem applyTimeRangeLimits_clamps_witness:
  "fst (applyTimeRangeLimits example_ext example_world
          (1700000000000000000 - 30 * 24 * 3600000000000))
     = 1700000000000000000 - 7 * 24 * 3600000000000
   \<and> fst (applyTimeRangeLimits example_ext example_world
          (1700000000000000000 - 3600000000000))
     = 1700000000000000000 - 24 * 3600000000000
   \<and> fst (applyTimeRangeLimits example_ext example_world
          (1700000000000000000 - 3 * 24 * 3600000000000))
     = 1700000000000000000 - 3 * 24 * 3600000000000"
  using applyTimeRangeLimits_clamps [of example_ext example_world
      "24 * 3600000000000" "7 * 24 * 3600000000000" 1700000000000000000 1700000000000000000 0]
  by (simp add: minDuration_of_def maxDuration_of_def example_ext_def example_world_def
      example_ParseDuration_def Hour_def)

text \<open>
  Claim C8. The clamp is not a function of four explicit inputs: its one argument is the
  requested time, and it reads the clock and the configuration of the process. With the
  same argument, a different clock gives a different result, and so does a different
  configured minimum or a different configured maximum.
\<close>

theorem applyTimeRangeLimits_reads_process_state_counterexample:
  "fst (applyTimeRangeLimits example_ext example_world 1700000000000000000)
     \<noteq> fst (applyTimeRangeLimits example_ext example_world_later 1700000000000000000)
   \<and> fst (applyTimeRangeLimits example_ext example_world 1700000000000000000)
     \<noteq> fst (applyTimeRangeLimits example_ext example_world_48h 1700000000000000000)
   \<and> fst (applyTimeRangeLimits example_ext example_world 0)
     \<noteq> fst (applyTimeRangeLimits example_ext example_world_1h_max 0)"
  by (simp add: applyTimeRangeLimits_result minDuration_of_def maxDuration_of_def
      example_ext_def example_world_def example_world_later_def example_world_48h_def
      example_world_1h_max_def example_ParseDuration_def Hour_def Let_def)

text \<open>
  Claim C8, as amended. The result of the clamp is determined by the requested time,
  the two strings it reads from the configuration and the two readings it takes of the
  clock: two process states that agree on these give the same result for the same
  requested time.
\<close>

theorem applyTimeRangeLimits_determined_by_reads:
  assumes "viper_GetString w ''warp10.find.activeafter.min''
             = viper_GetString w' ''warp10.find.activeafter.min''"
    and "viper_GetString w ''warp10.find.activeafter.max''
             = viper_GetString w' ''warp10.find.activeafter.max''"
    and "clock w (ticks w) = clock w' (ticks w')"
    and "clock w (Suc (ticks w)) = clock w' (Suc (ticks w'))"
  shows "fst (applyTimeRangeLimits ext w t) = fst (applyTimeRangeLimits ext w' t)"
  using assms
  by (simp add: applyTimeRangeLimits_result minDuration_of_def maxDuration_of_def Let_def)

theorem applyTimeRangeLimits_determined_by_reads_witness:
  "example_world \<noteq> example_world_busy
   \<and> fst (applyTimeRangeLimits example_ext example_world 1700000000000000000)
     = fst (applyTimeRangeLimits example_ext example_world_busy 1700000000000000000)"
proof -
  have "ticks example_world \<noteq> ticks example_world_busy"
    by (simp add: example_world_def example_world_busy_def)
  then have "example_world \<noteq> example_world_busy" by auto
  then show ?thesis
    using applyTimeRangeLimits_determined_by_reads
      [of example_world example_world_busy example_ext 1700000000000000000]
    by (simp add: example_world_def example_world_busy_def)
qed

section \<open>Properties of metric-name discovery\<close>

lemma FindClassnames_name_loop_short:
  assumes "m \<in> set ms" and "Name m = ''__name__''"
    and "length (TrimSpace ext (Value m)) < 7" and "Value m \<noteq> DEFAULT_METRIC_SELECTOR"
  shows "FindClassnames_name_loop ext ms has = Inl ''search must contain at least 3 characters''"
  using assms
proof (induction ms arbitrary: has)
  case Nil
  then show ?case by simp
next
  case (Cons a ms)
  show ?case
  proof (cases "a = m")
    case True
    then show ?thesis using Cons.prems by simp
  next
    case False
    then have "m \<in> set ms" using Cons.prems by simp
    then have "FindClassnames_name_loop ext ms h = Inl ''search must contain at least 3 characters''" for h
      using Cons.IH Cons.prems by blast
    then show ?thesis by simp
  qed
qed

lemma FindClassnames_name_loop_pass:
  assumes "\<forall>m\<in>set ms. Name m = ''__name__'' \<longrightarrow> 7 \<le> length (TrimSpace ext (Value m))"
  shows "FindClassnames_name_loop ext ms has = Inr (has \<or> (\<exists>m\<in>set ms. Name m = ''__name__''))"
  using assms
  by (induction ms arbitrary: has) auto

lemma FindClassnames_check_status:
  "FindClassnames_check ext e = Some (st, msg) \<Longrightarrow> st = 400"
  by (auto simp: FindClassnames_check_def split: sum.splits if_splits)

lemma FindClassnames_check_parses:
  "FindClassnames_check ext e = None \<Longrightarrow> \<exists>ms. ParseMetricSelector ext e = Inr ms"
  by (auto simp: FindClassnames_check_def split: sum.splits if_splits)

lemma FindClassnames_validate_loop_fails:
  assumes "e \<in> set matchers" and "FindClassnames_check ext e \<noteq> None"
  shows "\<exists>msg. FindClassnames_validate_loop ext matchers = Some (400, msg)"
  using assms
proof (induction matchers)
  case Nil
  then show ?case by simp
next
  case (Cons a matchers)
  show ?case
  proof (cases "FindClassnames_check ext a")
    case None
    then have "e \<in> set matchers" using Cons.prems by auto
    then show ?thesis using Cons.IH Cons.prems None by simp
  next
    case (Some p)
    obtain st msg where "p = (st, msg)" by (cases p)
    then show ?thesis using Some FindClassnames_check_status [of ext a st msg] by simp
  qed
qed

lemma FindClassnames_validate_loop_passes:
  "FindClassnames_validate_loop ext matchers = None \<longleftrightarrow>
     (\<forall>e\<in>set matchers. FindClassnames_check ext e = None)"
  by (induction matchers) (auto split: option.splits)

lemma FindClassnames_nonempty:
  "matchers \<noteq> [] \<Longrightarrow>
   FindClassnames ext warp token matchers startTime uriLabel =
     (case FindClassnames_validate_loop ext matchers of
        Some (status, err) \<Rightarrow> (([], status, Some err), [])
      | None \<Rightarrow> FindClassnames_query_loop ext warp token \<lparr>GCount = 0\<rparr> uriLabel matchers [] [])"
  by (simp add: FindClassnames_def)

lemma FindClassnames_empty:
  "FindClassnames ext warp token [] startTime uriLabel =
     (case FindClassnames_validate_loop ext [''{__name__=~'(http|prometheus).*'}''] of
        Some (status, err) \<Rightarrow> (([], status, Some err), [])
      | None \<Rightarrow> FindClassnames_query_loop ext warp token \<lparr>GCount = 100\<rparr> uriLabel
                  [''{__name__=~'(http|prometheus).*'}''] [] [])"
  by (simp add: FindClassnames_def DEFAULT_METRIC_SELECTOR_def DEFAULT_METRIC_SELECTOR_GCOUNT_def
      split: option.splits)

lemma FindClassnames_selector_parsed:
  "ParseMetricSelector ext e = Inr ms \<Longrightarrow>
   FindClassnames_selector ext uriLabel e =
     ''~'' @ buildWarp10Selector ext (fst (processMatchers ms))
              (if uriLabel \<noteq> '''' \<and> uriLabel \<noteq> ''__name__''
               then (snd (processMatchers ms))(uriLabel \<mapsto> ''~.*'')
               else snd (processMatchers ms))"
  by (simp add: FindClassnames_selector_def Let_def split: prod.splits)

lemma FindClassnames_query_loop_calls:
  "\<exists>n\<le>length matchers.
     snd (FindClassnames_query_loop ext warp token params uriLabel matchers resp calls) =
       calls @ map (\<lambda>e. (token, FindClassnames_selector ext uriLabel e, params)) (take n matchers)"
proof (induction matchers arbitrary: resp calls)
  case Nil
  then show ?case by simp
next
  case (Cons e matchers)
  let ?c = "(token, FindClassnames_selector ext uriLabel e, params)"
  show ?case
  proof (cases "warp calls ?c")
    case (Inl err)
    then have "snd (FindClassnames_query_loop ext warp token params uriLabel (e # matchers) resp calls)
        = calls @ map (\<lambda>e. (token, FindClassnames_selector ext uriLabel e, params))
                    (take 1 (e # matchers))"
      by (simp add: FindGTS_def)
    then show ?thesis by (intro exI [of _ 1]) simp
  next
    case (Inr gtss)
    obtain n where n: "n \<le> length matchers"
      "snd (FindClassnames_query_loop ext warp token params uriLabel matchers (resp @ gtss)
              (calls @ [?c])) =
         (calls @ [?c]) @ map (\<lambda>e. (token, FindClassnames_selector ext uriLabel e, params))
                            (take n matchers)"
      using Cons.IH [of "resp @ gtss" "calls @ [?c]"] by blast
    have "snd (FindClassnames_query_loop ext warp token params uriLabel (e # matchers) resp calls)
        = calls @ map (\<lambda>e. (token, FindClassnames_selector ext uriLabel e, params))
                    (take (Suc n) (e # matchers))"
      using Inr n(2) by (simp add: FindGTS_def)
    then show ?thesis using n(1) by (intro exI [of _ "Suc n"]) simp
  qed
qed

lemma FindClassnames_query_loop_single:
  "FindClassnames_query_loop ext warp token params uriLabel [e] [] [] =
     (case warp [] (token, FindClassnames_selector ext uriLabel e, params) of
        Inl err \<Rightarrow> (([], 500, Some ''internal server error while searching for series''),
                    [(token, FindClassnames_selector ext uriLabel e, params)])
      | Inr gtss \<Rightarrow> ((gtss, 200, None),
                     [(token, FindClassnames_selector ext uriLabel e, params)]))"
  by (simp add: FindGTS_def split: sum.splits)

lemma FindClassnames_query_loop_status:
  "fst (snd (fst (FindClassnames_query_loop ext warp token params uriLabel matchers resp calls)))
     = 200 \<or>
   fst (snd (fst (FindClassnames_query_loop ext warp token params uriLabel matchers resp calls)))
     = 500"
proof (induction matchers arbitrary: resp calls)
  case Nil
  then show ?case by simp
next
  case (Cons e matchers)
  let ?c = "(token, FindClassnames_selector ext uriLabel e, params)"
  show ?case
  proof (cases "warp calls ?c")
    case (Inl err)
    then show ?thesis by (simp add: FindGTS_def)
  next
    case (Inr gtss)
    then show ?thesis using Cons.IH [of "resp @ gtss" "calls @ [?c]"]
      by (simp add: FindGTS_def)
  qed
qed

text \<open>
  Claim C4. When some expression of the request parses to a list with a \<open>__name__\<close>
  matcher whose trimmed value is shorter than 7 characters (bytes, which is what Go's
  \<open>len\<close> counts) and is not the default selector, FindClassnames returns status 400
  with an error, no series, and no backend query. An expression that has a \<open>__name__\<close> matcher, every one of them with a trimmed
  value of at least 7 characters, passes the check; and when every expression of a
  non-empty request is such, the status returned is not 400 but 200, or 500 on a backend
  failure.
\<close>

theorem FindClassnames_rejects_short_name:
  "(e \<in> set matchers \<and> ParseMetricSelector ext e = Inr ms \<and> m \<in> set ms
      \<and> Name m = ''__name__'' \<and> length (TrimSpace ext (Value m)) < 7
      \<and> Value m \<noteq> DEFAULT_METRIC_SELECTOR
    \<longrightarrow> (\<exists>msg. FindClassnames ext warp token matchers startTime uriLabel
                  = (([], 400, Some msg), [])))
   \<and> (ParseMetricSelector ext e' = Inr ms' \<and> (\<exists>m\<in>set ms'. Name m = ''__name__'')
      \<and> (\<forall>m\<in>set ms'. Name m = ''__name__'' \<longrightarrow> 7 \<le> length (TrimSpace ext (Value m)))
    \<longrightarrow> FindClassnames_check ext e' = None)
   \<and> (matchers \<noteq> []
      \<and> (\<forall>e\<in>set matchers. \<exists>ms. ParseMetricSelector ext e = Inr ms
             \<and> (\<exists>m\<in>set ms. Name m = ''__name__'')
             \<and> (\<forall>m\<in>set ms. Name m = ''__name__''
                    \<longrightarrow> 7 \<le> length (TrimSpace ext (Value m))))
    \<longrightarrow> fst (snd (fst (FindClassnames ext warp token matchers startTime uriLabel))) = 200
        \<or> fst (snd (fst (FindClassnames ext warp token matchers startTime uriLabel))) = 500)"
proof (intro conjI impI)
  assume a: "e \<in> set matchers \<and> ParseMetricSelector ext e = Inr ms \<and> m \<in> set ms
      \<and> Name m = ''__name__'' \<and> length (TrimSpace ext (Value m)) < 7
      \<and> Value m \<noteq> DEFAULT_METRIC_SELECTOR"
  then have "FindClassnames_name_loop ext ms False
      = Inl ''search must contain at least 3 characters''"
    by (intro FindClassnames_name_loop_short [of m]) simp_all
  then have "FindClassnames_check ext e \<noteq> None"
    using a by (simp add: FindClassnames_check_def)
  then obtain msg where "FindClassnames_validate_loop ext matchers = Some (400, msg)"
    using a FindClassnames_validate_loop_fails by blast
  moreover have "matchers \<noteq> []" using a by auto
  ultimately show "\<exists>msg. FindClassnames ext warp token matchers startTime uriLabel
                  = (([], 400, Some msg), [])"
    by (simp add: FindClassnames_nonempty)
next
  assume b: "ParseMetricSelector ext e' = Inr ms' \<and> (\<exists>m\<in>set ms'. Name m = ''__name__'')
      \<and> (\<forall>m\<in>set ms'. Name m = ''__name__'' \<longrightarrow> 7 \<le> length (TrimSpace ext (Value m)))"
  then have "FindClassnames_name_loop ext ms' False = Inr True"
    using FindClassnames_name_loop_pass [of ms' ext False] by simp
  then show "FindClassnames_check ext e' = None"
    using b by (simp add: FindClassnames_check_def)
next
  assume c: "matchers \<noteq> []
      \<and> (\<forall>e\<in>set matchers. \<exists>ms. ParseMetricSelector ext e = Inr ms
             \<and> (\<exists>m\<in>set ms. Name m = ''__name__'')
             \<and> (\<forall>m\<in>set ms. Name m = ''__name__''
                    \<longrightarrow> 7 \<le> length (TrimSpace ext (Value m))))"
  have "FindClassnames_check ext q = None" if "q \<in> set matchers" for q
  proof -
    from c have "\<forall>e\<in>set matchers. \<exists>ms. ParseMetricSelector ext e = Inr ms
             \<and> (\<exists>m\<in>set ms. Name m = ''__name__'')
             \<and> (\<forall>m\<in>set ms. Name m = ''__name__''
                    \<longrightarrow> 7 \<le> length (TrimSpace ext (Value m)))"
      by (rule conjunct2)
    then have "\<exists>ms. ParseMetricSelector ext q = Inr ms
             \<and> (\<exists>m\<in>set ms. Name m = ''__name__'')
             \<and> (\<forall>m\<in>set ms. Name m = ''__name__''
                    \<longrightarrow> 7 \<le> length (TrimSpace ext (Value m)))"
      using that by (rule bspec)
    then obtain qs where qs: "ParseMetricSelector ext q = Inr qs"
      "\<exists>m\<in>set qs. Name m = ''__name__''"
      "\<forall>m\<in>set qs. Name m = ''__name__'' \<longrightarrow> 7 \<le> length (TrimSpace ext (Value m))"
      by (elim exE conjE)
    then have "FindClassnames_name_loop ext qs False = Inr True"
      using FindClassnames_name_loop_pass [of qs ext False] by simp
    then show ?thesis using qs(1) by (simp add: FindClassnames_check_def)
  qed
  then have "FindClassnames_validate_loop ext matchers = None"
    by (simp add: FindClassnames_validate_loop_passes)
  then have "FindClassnames ext warp token matchers startTime uriLabel =
      FindClassnames_query_loop ext warp token \<lparr>GCount = 0\<rparr> uriLabel matchers [] []"
    using c by (simp add: FindClassnames_nonempty)
  then show "fst (snd (fst (FindClassnames ext warp token matchers startTime uriLabel))) = 200
        \<or> fst (snd (fst (FindClassnames ext warp token matchers startTime uriLabel))) = 500"
    using FindClassnames_query_loop_status
      [of ext warp token "\<lparr>GCount = 0\<rparr>" uriLabel matchers "[]" "[]"]
    by simp
qed

theorem FindClassnames_rejects_short_name_witness:
  "(\<exists>msg. FindClassnames example_ext example_warp ''READ''
             [''{__name__=~'.*cpu.*'}'', ''{__name__=~'abc'}''] 0 ''''
           = (([], 400, Some msg), []))
   \<and> FindClassnames_check example_ext ''{__name__=~'.*cpu.*'}'' = None
   \<and> fst (snd (fst (FindClassnames example_ext example_warp ''READ''
                        [''{__name__=~'.*cpu.*'}''] 0 ''''))) = 200"
proof -
  note t1 = FindClassnames_rejects_short_name
    [where e = "''{__name__=~'abc'}''"
       and matchers = "[''{__name__=~'.*cpu.*'}'', ''{__name__=~'abc'}'']"
       and ext = example_ext
       and ms = "[\<lparr>Type = MatchRegexp, Name = ''__name__'', Value = ''abc''\<rparr>]"
       and m = "\<lparr>Type = MatchRegexp, Name = ''__name__'', Value = ''abc''\<rparr>"
       and warp = example_warp and token = "''READ''" and startTime = 0 and uriLabel = "''''"
       and e' = "''{__name__=~'.*cpu.*'}''"
       and ms' = "[\<lparr>Type = MatchRegexp, Name = ''__name__'', Value = ''.*cpu.*''\<rparr>]"]
  note t2 = FindClassnames_rejects_short_name
    [where e = "''{__name__=~'abc'}''"
       and matchers = "[''{__name__=~'.*cpu.*'}'']"
       and ext = example_ext
       and ms = "[\<lparr>Type = MatchRegexp, Name = ''__name__'', Value = ''abc''\<rparr>]"
       and m = "\<lparr>Type = MatchRegexp, Name = ''__name__'', Value = ''abc''\<rparr>"
       and warp = example_warp and token = "''READ''" and startTime = 0 and uriLabel = "''''"
       and e' = "''{__name__=~'.*cpu.*'}''"
       and ms' = "[\<lparr>Type = MatchRegexp, Name = ''__name__'', Value = ''.*cpu.*''\<rparr>]"]
  have a: "\<exists>msg. FindClassnames example_ext example_warp ''READ''
             [''{__name__=~'.*cpu.*'}'', ''{__name__=~'abc'}''] 0 ''''
           = (([], 400, Some msg), [])"
    using t1 [THEN conjunct1]
    by (simp add: example_ext_def example_ParseMetricSelector_def example_TrimSpace_def
        DEFAULT_METRIC_SELECTOR_def)
  have b: "FindClassnames_check example_ext ''{__name__=~'.*cpu.*'}'' = None"
    using t1 [THEN conjunct2, THEN conjunct1]
    by (simp add: example_ext_def example_ParseMetricSelector_def example_TrimSpace_def)
  have c: "fst (snd (fst (FindClassnames example_ext example_warp ''READ''
                        [''{__name__=~'.*cpu.*'}''] 0 ''''))) = 200"
    using t2 [THEN conjunct2, THEN conjunct2]
    by (simp add: example_ext_def example_ParseMetricSelector_def example_TrimSpace_def
        example_warp_def FindClassnames_def FindClassnames_check_def FindGTS_def
        DEFAULT_METRIC_SELECTOR_def)
  show ?thesis using a b c by blast
qed

text \<open>
  Claim C5. Called with no matcher expression, FindClassnames works on the single
  expression \<open>{__name__=~'(http|prometheus).*'}\<close> and caps the result count at 100: it
  sends at most one backend query, every query it sends carries the cap, and when the
  parser reads the default expression as its one regex matcher the call is exactly one
  query for the forced-regex selector of the default pattern, whose answer is returned
  with status 200 (status 500 when the backend fails), never a validation error.
\<close>

theorem FindClassnames_empty_uses_default:
  "length (snd (FindClassnames ext warp token [] startTime uriLabel)) \<le> 1
   \<and> (\<forall>c\<in>set (snd (FindClassnames ext warp token [] startTime uriLabel)).
        GCount (snd (snd c)) = 100)
   \<and> (ParseMetricSelector ext ''{__name__=~'(http|prometheus).*'}''
         = Inr [\<lparr>Type = MatchRegexp, Name = ''__name__'', Value = ''(http|prometheus).*''\<rparr>]
      \<longrightarrow> (let call = (token,
                        ''~'' @ buildWarp10Selector ext ''(http|prometheus).*''
                                 (if uriLabel \<noteq> '''' \<and> uriLabel \<noteq> ''__name__''
                                  then [uriLabel \<mapsto> ''~.*''] else Map.empty),
                        \<lparr>GCount = 100\<rparr>)
           in FindClassnames ext warp token [] startTime uriLabel =
                (case warp [] call of
                   Inl err \<Rightarrow> (([], 500, Some ''internal server error while searching for series''),
                               [call])
                 | Inr gtss \<Rightarrow> ((gtss, 200, None), [call]))))"
proof (intro conjI impI)
  let ?d = "''{__name__=~'(http|prometheus).*'}''"
  let ?calls = "snd (FindClassnames ext warp token [] startTime uriLabel)"
  have calls: "?calls = [] \<or> ?calls = [(token, FindClassnames_selector ext uriLabel ?d, \<lparr>GCount = 100\<rparr>)]"
    by (simp add: FindClassnames_empty FindClassnames_query_loop_single
        del: FindClassnames_query_loop.simps FindClassnames_validate_loop.simps
        split: option.splits sum.splits)
  then show "length ?calls \<le> 1" by auto
  show "\<forall>c\<in>set ?calls. GCount (snd (snd c)) = 100" using calls by auto
next
  let ?d = "''{__name__=~'(http|prometheus).*'}''"
  assume p: "ParseMetricSelector ext ?d
         = Inr [\<lparr>Type = MatchRegexp, Name = ''__name__'', Value = ''(http|prometheus).*''\<rparr>]"
  have v: "FindClassnames_validate_loop ext [?d] = None"
    using p by (simp add: FindClassnames_check_def DEFAULT_METRIC_SELECTOR_def)
  have s: "FindClassnames_selector ext uriLabel ?d =
      ''~'' @ buildWarp10Selector ext ''(http|prometheus).*''
                                 (if uriLabel \<noteq> '''' \<and> uriLabel \<noteq> ''__name__''
                                  then [uriLabel \<mapsto> ''~.*''] else Map.empty)"
    using p by (simp add: FindClassnames_selector_parsed processMatchers_def
        processMatchers_step_def)
  show "let call = (token,
                        ''~'' @ buildWarp10Selector ext ''(http|prometheus).*''
                                 (if uriLabel \<noteq> '''' \<and> uriLabel \<noteq> ''__name__''
                                  then [uriLabel \<mapsto> ''~.*''] else Map.empty),
                        \<lparr>GCount = 100\<rparr>)
           in FindClassnames ext warp token [] startTime uriLabel =
                (case warp [] call of
                   Inl err \<Rightarrow> (([], 500, Some ''internal server error while searching for series''),
                               [call])
                 | Inr gtss \<Rightarrow> ((gtss, 200, None), [call]))"
    unfolding Let_def FindClassnames_empty v FindClassnames_query_loop_single s
    by simp
qed

theorem FindClassnames_empty_uses_default_witness:
  "FindClassnames example_ext example_warp ''READ'' [] 0 '''' =
     ((example_series, 200, None), [(''READ'', ''~(http|prometheus).*{}'', \<lparr>GCount = 100\<rparr>)])"
  using FindClassnames_empty_uses_default [of example_ext example_warp "''READ''" 0 "''''"]
  by (simp add: example_ext_def example_ParseMetricSelector_def example_warp_def
      example_buildWarp10Selector_def Let_def)

lemma FindClassnames_query_loop_trace:
  "\<exists>n\<le>length matchers.
     snd (FindClassnames_query_loop ext warp token params uriLabel matchers resp calls) =
       calls @ map (\<lambda>e. (token, FindClassnames_selector ext uriLabel e, params)) (take n matchers)
     \<and> (fst (snd (fst (FindClassnames_query_loop ext warp token params uriLabel matchers resp calls))) = 200
          \<longrightarrow> n = length matchers)
     \<and> (fst (snd (fst (FindClassnames_query_loop ext warp token params uriLabel matchers resp calls))) = 500
          \<longrightarrow> 0 < n)
     \<and> (\<forall>i<n. (\<exists>gtss. warp (calls @ map (\<lambda>e. (token, FindClassnames_selector ext uriLabel e, params))
                                         (take i matchers))
                            (token, FindClassnames_selector ext uriLabel (matchers ! i), params)
                       = Inr gtss)
             \<longleftrightarrow> (Suc i < n
                  \<or> fst (snd (fst (FindClassnames_query_loop ext warp token params uriLabel
                                     matchers resp calls))) = 200))"
proof (induction matchers arbitrary: resp calls)
  case Nil
  then show ?case by simp
next
  case (Cons e matchers)
  let ?f = "\<lambda>e. (token, FindClassnames_selector ext uriLabel e, params)"
  let ?R = "FindClassnames_query_loop ext warp token params uriLabel (e # matchers) resp calls"
  show ?case
  proof (cases "warp calls (?f e)")
    case (Inl err)
    then have R: "?R = ((resp, 500, Some ''internal server error while searching for series''),
                        calls @ [?f e])"
      by (simp add: FindGTS_def)
    show ?thesis
    proof (intro exI [of _ 1] conjI impI allI)
      show "1 \<le> length (e # matchers)" by simp
      show "snd ?R = calls @ map ?f (take 1 (e # matchers))" unfolding R by simp
      show "1 = length (e # matchers)" if "fst (snd (fst ?R)) = 200"
        using that unfolding R by simp
      show "0 < (1::nat)" by simp
      show "(\<exists>gtss. warp (calls @ map ?f (take i (e # matchers))) (?f ((e # matchers) ! i)) = Inr gtss)
            \<longleftrightarrow> (Suc i < 1 \<or> fst (snd (fst ?R)) = 200)" if "i < 1" for i
        using that Inl unfolding R by simp
    qed
  next
    case (Inr gtss0)
    let ?R' = "FindClassnames_query_loop ext warp token params uriLabel matchers (resp @ gtss0)
                 (calls @ [?f e])"
    have R: "?R = ?R'" using Inr by (simp add: FindGTS_def)
    have st: "fst (snd (fst ?R')) = 200 \<or> fst (snd (fst ?R')) = 500"
      by (rule FindClassnames_query_loop_status)
    obtain n where n: "n \<le> length matchers"
      "snd ?R' = (calls @ [?f e]) @ map ?f (take n matchers)"
      "fst (snd (fst ?R')) = 200 \<longrightarrow> n = length matchers"
      "fst (snd (fst ?R')) = 500 \<longrightarrow> 0 < n"
      "\<forall>i<n. (\<exists>gtss. warp ((calls @ [?f e]) @ map ?f (take i matchers)) (?f (matchers ! i)) = Inr gtss)
             \<longleftrightarrow> (Suc i < n \<or> fst (snd (fst ?R')) = 200)"
      using Cons.IH [of "resp @ gtss0" "calls @ [?f e]"] by (elim exE conjE)
    show ?thesis
    proof (intro exI [of _ "Suc n"] conjI impI allI)
      show "Suc n \<le> length (e # matchers)" using n(1) by simp
      show "snd ?R = calls @ map ?f (take (Suc n) (e # matchers))" using n(2) unfolding R by simp
      show "Suc n = length (e # matchers)" if "fst (snd (fst ?R)) = 200"
        using that n(3) unfolding R by simp
      show "0 < Suc n" by simp
      show "(\<exists>gtss. warp (calls @ map ?f (take i (e # matchers))) (?f ((e # matchers) ! i)) = Inr gtss)
            \<longleftrightarrow> (Suc i < Suc n \<or> fst (snd (fst ?R)) = 200)" if "i < Suc n" for i
      proof (cases i)
        case 0
        have "0 < n \<or> fst (snd (fst ?R')) = 200" using st n(4) by auto
        then show ?thesis using 0 Inr unfolding R by simp
      next
        case (Suc j)
        then have "j < n" using that by simp
        then have "(\<exists>gtss. warp ((calls @ [?f e]) @ map ?f (take j matchers)) (?f (matchers ! j)) = Inr gtss)
             \<longleftrightarrow> (Suc j < n \<or> fst (snd (fst ?R')) = 200)"
          using n(5) by (elim allE [of _ j]) simp
        then show ?thesis using Suc unfolding R by simp
      qed
    qed
  qed
qed


lemma FindClassnames_validate_loop_status:
  "FindClassnames_validate_loop ext matchers = Some (st, msg) \<Longrightarrow> st = 400"
proof (induction matchers)
  case Nil
  then show ?case by simp
next
  case (Cons e matchers)
  show ?case
  proof (cases "FindClassnames_check ext e")
    case None
    then show ?thesis using Cons by simp
  next
    case (Some p)
    then have "FindClassnames_check ext e = Some (st, msg)" using Cons.prems by simp
    then show ?thesis by (rule FindClassnames_check_status)
  qed
qed

text \<open>
  Claim C9. FindClassnames queries the expressions of the request in order (the default
  expression when there is none), and the query of each expression carries that
  expression's own forced-regex selector: the \<open>i\<close>-th query sent is for \<open>~\<close> followed by
  the selector built from the translation of the \<open>i\<close>-th expression, with the label of the
  URI added as a constraint when it is given. No expression is skipped: with status 200
  there is one query for each expression, every query but the last was answered, the last
  one was answered exactly when the status is 200, and no query is sent exactly when the
  status is 400. For an expression whose only matcher is an exact match on the name, the
  one query sent is \<open>~\<close> followed by the selector built for that name.
\<close>

theorem FindClassnames_forced_regex_selector:
  assumes es: "es = (if matchers = [] then [''{__name__=~'(http|prometheus).*'}''] else matchers)"
    and params: "params = (if matchers = [] then \<lparr>GCount = 100\<rparr> else \<lparr>GCount = 0\<rparr>)"
    and calls: "calls = snd (FindClassnames ext warp token matchers startTime uriLabel)"
    and status: "status = fst (snd (fst (FindClassnames ext warp token matchers startTime uriLabel)))"
  shows "length calls \<le> length es
   \<and> (\<forall>i<length calls.
        \<exists>ms. ParseMetricSelector ext (es ! i) = Inr ms
          \<and> calls ! i =
              (token,
               ''~'' @ buildWarp10Selector ext (fst (processMatchers ms))
                        (if uriLabel \<noteq> '''' \<and> uriLabel \<noteq> ''__name__''
                         then (snd (processMatchers ms))(uriLabel \<mapsto> ''~.*'')
                         else snd (processMatchers ms)),
               params))
   \<and> (status = 200 \<longrightarrow> length calls = length es)
   \<and> (calls = [] \<longleftrightarrow> status = 400)
   \<and> (\<forall>i<length calls.
        (\<exists>gtss. warp (take i calls) (calls ! i) = Inr gtss)
          \<longleftrightarrow> (Suc i < length calls \<or> status = 200))
   \<and> (\<forall>c\<in>set calls.
      \<exists>e ms. (e \<in> set matchers \<or> matchers = [] \<and> e = ''{__name__=~'(http|prometheus).*'}'')
        \<and> ParseMetricSelector ext e = Inr ms
        \<and> fst (snd c) =
            ''~'' @ buildWarp10Selector ext (fst (processMatchers ms))
                     (if uriLabel \<noteq> '''' \<and> uriLabel \<noteq> ''__name__''
                      then (snd (processMatchers ms))(uriLabel \<mapsto> ''~.*'')
                      else snd (processMatchers ms)))
   \<and> (ParseMetricSelector ext q = Inr [\<lparr>Type = MatchEqual, Name = ''__name__'', Value = v\<rparr>]
        \<and> 7 \<le> length (TrimSpace ext v)
      \<longrightarrow> snd (FindClassnames ext warp token [q] startTime '''') =
            [(token, ''~'' @ buildWarp10Selector ext v Map.empty, \<lparr>GCount = 0\<rparr>)])"
proof -
  let ?f = "\<lambda>e. (token, FindClassnames_selector ext uriLabel e, params)"
  let ?Q = "FindClassnames_query_loop ext warp token params uriLabel es [] []"
  have ne: "es \<noteq> []" by (simp add: es)
  have F: "FindClassnames ext warp token matchers startTime uriLabel =
     (case FindClassnames_validate_loop ext es of
        Some (st, err) \<Rightarrow> (([], st, Some err), [])
      | None \<Rightarrow> ?Q)"
    unfolding es params
    using FindClassnames_empty [of ext warp token startTime uriLabel]
      FindClassnames_nonempty [of matchers ext warp token startTime uriLabel]
    by (cases "matchers = []") simp_all
  have sel: "\<exists>ms. ParseMetricSelector ext e = Inr ms
          \<and> ?f e =
              (token,
               ''~'' @ buildWarp10Selector ext (fst (processMatchers ms))
                        (if uriLabel \<noteq> '''' \<and> uriLabel \<noteq> ''__name__''
                         then (snd (processMatchers ms))(uriLabel \<mapsto> ''~.*'')
                         else snd (processMatchers ms)),
               params)"
    if e_ok: "FindClassnames_check ext e = None" for e
  proof -
    obtain ms where ms: "ParseMetricSelector ext e = Inr ms"
      using FindClassnames_check_parses [OF e_ok] by (elim exE)
    show ?thesis using ms FindClassnames_selector_parsed [OF ms, of uriLabel] by simp
  qed
  have main: "length calls \<le> length es
   \<and> (\<forall>i<length calls.
        \<exists>ms. ParseMetricSelector ext (es ! i) = Inr ms
          \<and> calls ! i =
              (token,
               ''~'' @ buildWarp10Selector ext (fst (processMatchers ms))
                        (if uriLabel \<noteq> '''' \<and> uriLabel \<noteq> ''__name__''
                         then (snd (processMatchers ms))(uriLabel \<mapsto> ''~.*'')
                         else snd (processMatchers ms)),
               params))
   \<and> (status = 200 \<longrightarrow> length calls = length es)
   \<and> (calls = [] \<longleftrightarrow> status = 400)
   \<and> (\<forall>i<length calls.
        (\<exists>gtss. warp (take i calls) (calls ! i) = Inr gtss)
          \<longleftrightarrow> (Suc i < length calls \<or> status = 200))"
  proof (cases "FindClassnames_validate_loop ext es")
    case (Some p)
    obtain st msg where p: "p = (st, msg)" by (cases p)
    have "st = 400" using Some p FindClassnames_validate_loop_status by blast
    then have "calls = []" "status = 400"
      using Some p by (simp_all add: calls status F)
    then show ?thesis by simp
  next
    case None
    then have R: "FindClassnames ext warp token matchers startTime uriLabel = ?Q"
      by (simp add: F)
    have chk: "FindClassnames_check ext e = None" if "e \<in> set es" for e
      using None that FindClassnames_validate_loop_passes by blast
    have st: "status = 200 \<or> status = 500"
      unfolding status R by (rule FindClassnames_query_loop_status)
    obtain n where n: "n \<le> length es"
      "calls = map ?f (take n es)"
      "status = 200 \<longrightarrow> n = length es"
      "status = 500 \<longrightarrow> 0 < n"
      "\<forall>i<n. (\<exists>gtss. warp (map ?f (take i es)) (?f (es ! i)) = Inr gtss)
             \<longleftrightarrow> (Suc i < n \<or> status = 200)"
      using FindClassnames_query_loop_trace [of es ext warp token params uriLabel "[]" "[]"]
      unfolding calls status R by (elim exE conjE) simp
    have len: "length calls = n" using n(1,2) by simp
    have nth: "calls ! i = ?f (es ! i)" if "i < n" for i
      using that n(1,2) by simp
    have tk: "take i calls = map ?f (take i es)" if "i < n" for i
      using that n(1,2) by (simp add: take_map min_def)
    have c1: "length calls \<le> length es" using len n(1) by simp
    have c2: "\<forall>i<length calls.
        \<exists>ms. ParseMetricSelector ext (es ! i) = Inr ms
          \<and> calls ! i =
              (token,
               ''~'' @ buildWarp10Selector ext (fst (processMatchers ms))
                        (if uriLabel \<noteq> '''' \<and> uriLabel \<noteq> ''__name__''
                         then (snd (processMatchers ms))(uriLabel \<mapsto> ''~.*'')
                         else snd (processMatchers ms)),
               params)"
    proof (intro allI impI)
      fix i assume i: "i < length calls"
      then have "es ! i \<in> set es" using len n(1) by simp
      then have "FindClassnames_check ext (es ! i) = None" by (rule chk)
      then show "\<exists>ms. ParseMetricSelector ext (es ! i) = Inr ms
          \<and> calls ! i =
              (token,
               ''~'' @ buildWarp10Selector ext (fst (processMatchers ms))
                        (if uriLabel \<noteq> '''' \<and> uriLabel \<noteq> ''__name__''
                         then (snd (processMatchers ms))(uriLabel \<mapsto> ''~.*'')
                         else snd (processMatchers ms)),
               params)"
        using sel [of "es ! i"] nth [of i] i len by simp
    qed
    have c3: "status = 200 \<longrightarrow> length calls = length es" using n(3) len by simp
    have "0 < n" using st n(3,4) ne by auto
    then have c4: "calls = [] \<longleftrightarrow> status = 400" using st len by auto
    have c5: "\<forall>i<length calls.
        (\<exists>gtss. warp (take i calls) (calls ! i) = Inr gtss)
          \<longleftrightarrow> (Suc i < length calls \<or> status = 200)"
    proof (intro allI impI)
      fix i assume "i < length calls"
      then have i: "i < n" using len by simp
      have "(\<exists>gtss. warp (map ?f (take i es)) (?f (es ! i)) = Inr gtss)
             \<longleftrightarrow> (Suc i < n \<or> status = 200)"
        using n(5) i by (elim allE [of _ i]) simp
      then show "(\<exists>gtss. warp (take i calls) (calls ! i) = Inr gtss)
          \<longleftrightarrow> (Suc i < length calls \<or> status = 200)"
        unfolding tk [OF i] nth [OF i] len .
    qed
    show ?thesis using c1 c2 c3 c4 c5 by (intro conjI)
  qed
  have old1: "\<forall>c\<in>set calls.
      \<exists>e ms. (e \<in> set matchers \<or> matchers = [] \<and> e = ''{__name__=~'(http|prometheus).*'}'')
        \<and> ParseMetricSelector ext e = Inr ms
        \<and> fst (snd c) =
            ''~'' @ buildWarp10Selector ext (fst (processMatchers ms))
                     (if uriLabel \<noteq> '''' \<and> uriLabel \<noteq> ''__name__''
                      then (snd (processMatchers ms))(uriLabel \<mapsto> ''~.*'')
                      else snd (processMatchers ms))"
  proof
    fix c assume "c \<in> set calls"
    then obtain i where i: "i < length calls" "calls ! i = c"
      by (auto simp: in_set_conv_nth)
    have le: "length calls \<le> length es" using main by (rule conjunct1)
    have "\<forall>i<length calls.
        \<exists>ms. ParseMetricSelector ext (es ! i) = Inr ms
          \<and> calls ! i =
              (token,
               ''~'' @ buildWarp10Selector ext (fst (processMatchers ms))
                        (if uriLabel \<noteq> '''' \<and> uriLabel \<noteq> ''__name__''
                         then (snd (processMatchers ms))(uriLabel \<mapsto> ''~.*'')
                         else snd (processMatchers ms)),
               params)"
      using main by (elim conjE)
    then obtain ms where ms: "ParseMetricSelector ext (es ! i) = Inr ms"
      "c = (token,
               ''~'' @ buildWarp10Selector ext (fst (processMatchers ms))
                        (if uriLabel \<noteq> '''' \<and> uriLabel \<noteq> ''__name__''
                         then (snd (processMatchers ms))(uriLabel \<mapsto> ''~.*'')
                         else snd (processMatchers ms)),
               params)"
      using i by (elim allE [of _ i]) auto
    have "es ! i \<in> set es" using i(1) le by simp
    then have "es ! i \<in> set matchers
        \<or> matchers = [] \<and> es ! i = ''{__name__=~'(http|prometheus).*'}''"
      unfolding es by (cases "matchers = []") simp_all
    then show "\<exists>e ms. (e \<in> set matchers \<or> matchers = [] \<and> e = ''{__name__=~'(http|prometheus).*'}'')
        \<and> ParseMetricSelector ext e = Inr ms
        \<and> fst (snd c) =
            ''~'' @ buildWarp10Selector ext (fst (processMatchers ms))
                     (if uriLabel \<noteq> '''' \<and> uriLabel \<noteq> ''__name__''
                      then (snd (processMatchers ms))(uriLabel \<mapsto> ''~.*'')
                      else snd (processMatchers ms))"
      using ms by (intro exI [of _ "es ! i"] exI [of _ ms]) simp
  qed
  have old2: "ParseMetricSelector ext q = Inr [\<lparr>Type = MatchEqual, Name = ''__name__'', Value = v\<rparr>]
        \<and> 7 \<le> length (TrimSpace ext v)
      \<longrightarrow> snd (FindClassnames ext warp token [q] startTime '''') =
            [(token, ''~'' @ buildWarp10Selector ext v Map.empty, \<lparr>GCount = 0\<rparr>)]"
  proof
    assume a: "ParseMetricSelector ext q = Inr [\<lparr>Type = MatchEqual, Name = ''__name__'', Value = v\<rparr>]
        \<and> 7 \<le> length (TrimSpace ext v)"
    have v: "FindClassnames_validate_loop ext [q] = None"
      using a by (simp add: FindClassnames_check_def)
    have s: "FindClassnames_selector ext '''' q = ''~'' @ buildWarp10Selector ext v Map.empty"
      using a by (simp add: FindClassnames_selector_parsed processMatchers_def
          processMatchers_step_def)
    have "FindClassnames ext warp token [q] startTime '''' =
        FindClassnames_query_loop ext warp token \<lparr>GCount = 0\<rparr> '''' [q] [] []"
      using v FindClassnames_nonempty [of "[q]" ext warp token startTime "''''"] by simp
    then show "snd (FindClassnames ext warp token [q] startTime '''') =
              [(token, ''~'' @ buildWarp10Selector ext v Map.empty, \<lparr>GCount = 0\<rparr>)]"
      unfolding FindClassnames_query_loop_single s by (simp split: sum.splits)
  qed
  show ?thesis using main old1 old2 by (intro conjI) (elim conjE, assumption)+
qed

theorem FindClassnames_forced_regex_selector_witness:
  "snd (FindClassnames example_ext example_warp ''READ''
          [''{__name__=~'.*cpu.*'}'', ''http_requests_total''] 0 '''')
     = [(''READ'', ''~.*cpu.*{}'', \<lparr>GCount = 0\<rparr>),
        (''READ'', ''~http_requests_total{}'', \<lparr>GCount = 0\<rparr>)]
   \<and> snd (FindClassnames example_ext example_warp ''READ'' [''http_requests_total''] 0 '''')
     = [(''READ'', ''~http_requests_total{}'', \<lparr>GCount = 0\<rparr>)]"
proof -
  let ?R = "FindClassnames example_ext example_warp ''READ''
          [''{__name__=~'.*cpu.*'}'', ''http_requests_total''] 0 ''''"
  note t = FindClassnames_forced_regex_selector
    [where es = "[''{__name__=~'.*cpu.*'}'', ''http_requests_total'']"
       and matchers = "[''{__name__=~'.*cpu.*'}'', ''http_requests_total'']"
       and params = "\<lparr>GCount = 0\<rparr>" and calls = "snd ?R" and status = "fst (snd (fst ?R))"
       and ext = example_ext and warp = example_warp and token = "''READ''"
       and startTime = 0 and uriLabel = "''''"
       and q = "''http_requests_total''" and v = "''http_requests_total''"]
  have t': "length (snd ?R) \<le> 2
      \<and> (\<forall>i<length (snd ?R).
        \<exists>ms. example_ParseMetricSelector
               ([''{__name__=~'.*cpu.*'}'', ''http_requests_total''] ! i) = Inr ms
          \<and> snd ?R ! i =
              (''READ'',
               ''~'' @ example_buildWarp10Selector (fst (processMatchers ms))
                        (snd (processMatchers ms)),
               \<lparr>GCount = 0\<rparr>))
      \<and> (fst (snd (fst ?R)) = 200 \<longrightarrow> length (snd ?R) = 2)
      \<and> (snd (FindClassnames example_ext example_warp ''READ'' [''http_requests_total''] 0 '''')
            = [(''READ'', ''~'' @ example_buildWarp10Selector ''http_requests_total'' Map.empty,
                \<lparr>GCount = 0\<rparr>)])"
    using t
    by (simp add: example_ext_def example_ParseMetricSelector_def example_TrimSpace_def)
  have st: "fst (snd (fst ?R)) = 200"
    by (simp add: FindClassnames_def FindClassnames_check_def FindGTS_def example_ext_def
        example_ParseMetricSelector_def example_TrimSpace_def example_warp_def
        DEFAULT_METRIC_SELECTOR_def Let_def)
  have len: "length (snd ?R) = 2" using t' st by simp
  have c0: "snd ?R ! 0 = (''READ'', ''~.*cpu.*{}'', \<lparr>GCount = 0\<rparr>)"
    using t' [THEN conjunct2, THEN conjunct1, THEN spec [of _ 0]] len
    by (auto simp: example_ParseMetricSelector_def example_buildWarp10Selector_def
        processMatchers_def processMatchers_step_def)
  have c1: "snd ?R ! 1 = (''READ'', ''~http_requests_total{}'', \<lparr>GCount = 0\<rparr>)"
    using t' [THEN conjunct2, THEN conjunct1, THEN spec [of _ 1]] len
    by (auto simp: example_ParseMetricSelector_def example_buildWarp10Selector_def
        processMatchers_def processMatchers_step_def)
  have "snd ?R = [snd ?R ! 0, snd ?R ! 1]"
    using len by (cases "snd ?R"; cases "tl (snd ?R)"; cases "tl (tl (snd ?R))") auto
  then have "snd ?R = [(''READ'', ''~.*cpu.*{}'', \<lparr>GCount = 0\<rparr>),
        (''READ'', ''~http_requests_total{}'', \<lparr>GCount = 0\<rparr>)]"
    using c0 c1 by simp
  moreover have "snd (FindClassnames example_ext example_warp ''READ'' [''http_requests_total''] 0 '''')
     = [(''READ'', ''~http_requests_total{}'', \<lparr>GCount = 0\<rparr>)]"
    using t' by (simp add: example_buildWarp10Selector_def)
  ultimately show ?thesis by simp
qed

section \<open>The echo handler of metric-name discovery\<close>

text \<open>
  The handler of find.go agrees with the later revision on the length check and on the
  forced-regex selector, and differs on the empty list of expressions, which it answers
  with an empty success without any query.
\<close>

lemma FindClassnames_echo_name_loop_short:
  assumes "m \<in> set ms" and "Name m = ''__name__''"
    and "length (TrimSpace ext (Value m)) < 7"
  shows "FindClassnames_echo_name_loop ext ms has = Inl ''Search must contain at least 3 characters''"
  using assms
proof (induction ms arbitrary: has)
  case Nil
  then show ?case by simp
next
  case (Cons a ms)
  show ?case
  proof (cases "a = m")
    case True
    then show ?thesis using Cons.prems by simp
  next
    case False
    then have "m \<in> set ms" using Cons.prems by simp
    then have "FindClassnames_echo_name_loop ext ms h
        = Inl ''Search must contain at least 3 characters''" for h
      using Cons.IH Cons.prems by blast
    then show ?thesis by simp
  qed
qed

lemma FindClassnames_echo_check_status:
  "FindClassnames_echo_check ext e = Some resp \<Longrightarrow> \<exists>msg. resp = ErrorResponse 400 msg"
  by (auto simp: FindClassnames_echo_check_def split: sum.splits if_splits)

lemma FindClassnames_echo_validate_loop_fails:
  assumes "e \<in> set matchers" and "FindClassnames_echo_check ext e \<noteq> None"
  shows "\<exists>msg. FindClassnames_echo_validate_loop ext matchers = Some (ErrorResponse 400 msg)"
  using assms
proof (induction matchers)
  case Nil
  then show ?case by simp
next
  case (Cons a matchers)
  show ?case
  proof (cases "FindClassnames_echo_check ext a")
    case None
    then have "e \<in> set matchers" using Cons.prems by auto
    then show ?thesis using Cons.IH Cons.prems None by simp
  next
    case (Some resp)
    then show ?thesis using FindClassnames_echo_check_status [of ext a resp] by auto
  qed
qed

lemma FindClassnames_echo_rejects_short_name:
  assumes "req_token r \<noteq> ''''" and "e \<in> set (req_query_match r)"
    and "ParseMetricSelector ext e = Inr ms" and "m \<in> set ms" and "Name m = ''__name__''"
    and "length (TrimSpace ext (Value m)) < 7"
  shows "\<exists>msg. FindClassnames_echo ext warp r = (ErrorResponse 400 msg, [])"
proof -
  have "FindClassnames_echo_name_loop ext ms False
      = Inl ''Search must contain at least 3 characters''"
    using assms(4-6) by (rule FindClassnames_echo_name_loop_short)
  then have "FindClassnames_echo_check ext e \<noteq> None"
    using assms(3) by (simp add: FindClassnames_echo_check_def)
  then obtain msg where
    "FindClassnames_echo_validate_loop ext (req_query_match r) = Some (ErrorResponse 400 msg)"
    using assms(2) FindClassnames_echo_validate_loop_fails by blast
  moreover have "req_query_match r \<noteq> []" using assms(2) by auto
  ultimately show ?thesis using assms(1) by (simp add: FindClassnames_echo_def Let_def)
qed

lemma FindClassnames_echo_no_matchers:
  assumes "req_query_match r = []"
  shows "snd (FindClassnames_echo ext warp r) = []"
    and "req_token r \<noteq> '''' \<Longrightarrow>
         fst (FindClassnames_echo ext warp r) = FindLabelsResponse 200 ''success'' []"
  using assms by (simp_all add: FindClassnames_echo_def Let_def)

lemma FindClassnames_echo_query_loop_calls:
  "\<exists>n\<le>length matchers.
     snd (FindClassnames_echo_query_loop ext warp token startTime uriLabel matchers data calls) =
       calls @ map (\<lambda>e. (token, FindClassnames_selector ext uriLabel e, startTime))
                 (take n matchers)"
proof (induction matchers arbitrary: data calls)
  case Nil
  then show ?case by simp
next
  case (Cons e matchers)
  let ?c = "(token, FindClassnames_selector ext uriLabel e, startTime)"
  show ?case
  proof (cases "warp calls ?c")
    case (Inl err)
    then have "snd (FindClassnames_echo_query_loop ext warp token startTime uriLabel
                     (e # matchers) data calls)
        = calls @ map (\<lambda>e. (token, FindClassnames_selector ext uriLabel e, startTime))
                    (take 1 (e # matchers))"
      by (simp add: FindGTS_def)
    then show ?thesis by (intro exI [of _ 1]) simp
  next
    case (Inr gtss)
    obtain n where n: "n \<le> length matchers"
      "snd (FindClassnames_echo_query_loop ext warp token startTime uriLabel matchers
              (data @ map Class gtss) (calls @ [?c])) =
         (calls @ [?c]) @ map (\<lambda>e. (token, FindClassnames_selector ext uriLabel e, startTime))
                            (take n matchers)"
      using Cons.IH [of "data @ map Class gtss" "calls @ [?c]"] by blast
    have "snd (FindClassnames_echo_query_loop ext warp token startTime uriLabel
                 (e # matchers) data calls)
        = calls @ map (\<lambda>e. (token, FindClassnames_selector ext uriLabel e, startTime))
                    (take (Suc n) (e # matchers))"
      using Inr n(2) by (simp add: FindGTS_def)
    then show ?thesis using n(1) by (intro exI [of _ "Suc n"]) simp
  qed
qed

lemma FindClassnames_echo_calls:
  "snd (FindClassnames_echo ext warp r) = [] \<or>
   (\<exists>startTime. snd (FindClassnames_echo ext warp r) =
      snd (FindClassnames_echo_query_loop ext warp (req_token r) startTime (req_label r)
             (req_query_match r) [] []))"
proof (cases "req_token r = '''' \<or> req_query_match r = []
      \<or> FindClassnames_echo_validate_loop ext (req_query_match r) \<noteq> None
      \<or> (req_query_start r \<noteq> '''' \<and> ParseInt ext (req_query_start r) = None)")
  case True
  then have "snd (FindClassnames_echo ext warp r) = []"
    by (auto simp: FindClassnames_echo_def Let_def split: option.splits)
  then show ?thesis by simp
next
  case False
  show ?thesis
  proof (cases "req_query_start r = ''''")
    case True
    then have "snd (FindClassnames_echo ext warp r) =
        snd (FindClassnames_echo_query_loop ext warp (req_token r) zeroTime (req_label r)
               (req_query_match r) [] [])"
      using False by (auto simp: FindClassnames_echo_def Let_def split: sum.splits prod.splits)
    then show ?thesis by blast
  next
    case nonempty: False
    then obtain sec where "ParseInt ext (req_query_start r) = Some sec"
      using False by auto
    then have "snd (FindClassnames_echo ext warp r) =
        snd (FindClassnames_echo_query_loop ext warp (req_token r) (time_Unix sec) (req_label r)
               (req_query_match r) [] [])"
      using False nonempty
      by (auto simp: FindClassnames_echo_def Let_def split: sum.splits prod.splits)
    then show ?thesis by blast
  qed
qed

lemma FindClassnames_echo_forced_regex_selector:
  assumes "c \<in> set (snd (FindClassnames_echo ext warp r))"
  shows "\<exists>e\<in>set (req_query_match r).
           fst (snd c) = FindClassnames_selector ext (req_label r) e
           \<and> take 1 (fst (snd c)) = ''~''"
proof -
  have sel: "take 1 (FindClassnames_selector ext u e) = ''~''" for u e
    by (simp add: FindClassnames_selector_def Let_def split: prod.splits)
  obtain startTime where
    "snd (FindClassnames_echo ext warp r) =
        snd (FindClassnames_echo_query_loop ext warp (req_token r) startTime (req_label r)
               (req_query_match r) [] [])"
    using assms FindClassnames_echo_calls [of ext warp r] by auto
  moreover obtain n where
    "snd (FindClassnames_echo_query_loop ext warp (req_token r) startTime (req_label r)
               (req_query_match r) [] []) =
       map (\<lambda>e. (req_token r, FindClassnames_selector ext (req_label r) e, startTime))
           (take n (req_query_match r))"
    using FindClassnames_echo_query_loop_calls
      [of "req_query_match r" ext warp "req_token r" startTime "req_label r" "[]" "[]"]
    by auto
  ultimately obtain e where "e \<in> set (take n (req_query_match r))"
    "c = (req_token r, FindClassnames_selector ext (req_label r) e, startTime)"
    using assms by auto
  then show ?thesis using sel by (auto dest: in_set_takeD)
qed

section \<open>Properties of label-value and label-name discovery\<close>

lemma FindLabelsValues_loop_eq:
  "FindLabelsValues_loop labelValue gtss data =
     data @ (if labelValue = ''__name__'' then map Class gtss
             else List.map_filter (\<lambda>gts. Labels gts labelValue) gtss)"
  by (induction gtss arbitrary: data) (auto simp: List.map_filter_simps split: option.splits)

lemma FindLabelsValues_loop_Attrs:
  "FindLabelsValues_loop labelValue (map (\<lambda>g. g\<lparr>Attrs := f g\<rparr>) gtss) data =
     FindLabelsValues_loop labelValue gtss data"
  by (induction gtss arbitrary: data) (auto split: option.splits)

lemma FindLabelsValues_valid:
  assumes "req_token r \<noteq> ''''" and "req_label r \<noteq> ''''" and "\<not> req_parse_form_fails r"
    and "req_form_match r = e # rest" and "ParseMetricSelector ext e = Inr ms"
  shows "FindLabelsValues ext warp r =
     (let c = (req_token r,
               buildWarp10Selector ext (fst (processMatchers ms)) (snd (processMatchers ms)),
               zeroTime)
      in case warp [] c of
           Inl err \<Rightarrow> (ErrorResponse 500 err, [c])
         | Inr gtss \<Rightarrow>
             (FindLabelsResponse 200 ''success''
                (unique ext (FindLabelsValues_loop (req_label r) gtss [])), [c]))"
  using assms
  by (simp add: FindLabelsValues_def FindGTS_def Let_def split: prod.splits sum.splits)

lemma FindLabelsValues_calls:
  "snd (FindLabelsValues ext warp r) = [] \<or>
   (\<exists>e rest ms. req_token r \<noteq> '''' \<and> req_label r \<noteq> '''' \<and> \<not> req_parse_form_fails r
      \<and> req_form_match r = e # rest \<and> ParseMetricSelector ext e = Inr ms)"
proof (cases "req_token r \<noteq> '''' \<and> req_label r \<noteq> '''' \<and> \<not> req_parse_form_fails r")
  case False
  then show ?thesis by (auto simp: FindLabelsValues_def Let_def)
next
  case valid: True
  show ?thesis
  proof (cases "req_form_match r")
    case Nil
    then show ?thesis by (simp add: FindLabelsValues_def Let_def)
  next
    case (Cons e rest)
    show ?thesis
    proof (cases "ParseMetricSelector ext e")
      case (Inl err)
      then show ?thesis using Cons by (simp add: FindLabelsValues_def Let_def)
    next
      case (Inr ms)
      then show ?thesis using Cons valid by blast
    qed
  qed
qed

lemma FindLabels_gts_loop_eq:
  "FindLabels_gts_loop gtss labelSet =
     labelSet \<union> (\<Union>gts\<in>set gtss. {key \<in> dom (Labels gts). key \<noteq> ''.app''} \<union> dom (Attrs gts))"
  by (induction gtss arbitrary: labelSet) auto

lemma FindLabels_loop_inv:
  assumes "FindLabels_loop ext warp token matchers labelSet calls = (Inr labelSet', calls')"
  shows "labelSet \<subseteq> labelSet' \<and>
     (\<exists>new. calls' = calls @ new \<and>
        (\<forall>i<length new. \<forall>gtss. warp (calls @ take i new) (new ! i) = Inr gtss \<longrightarrow>
           (\<forall>gts\<in>set gtss. dom (Attrs gts) \<subseteq> labelSet')))"
  using assms
proof (induction matchers arbitrary: labelSet calls)
  case Nil
  then show ?case by simp
next
  case (Cons e matchers)
  from Cons.prems obtain ms where ms: "ParseMetricSelector ext e = Inr ms"
    by (cases "ParseMetricSelector ext e") simp_all
  let ?c = "(token, buildWarp10Selector ext (fst (processMatchers ms)) (snd (processMatchers ms)),
             zeroTime)"
  from Cons.prems ms obtain gtss0 where g0: "warp calls ?c = Inr gtss0"
    by (cases "warp calls ?c") (simp_all add: FindGTS_def Let_def split: prod.splits)
  let ?S = "FindLabels_gts_loop gtss0 (insert ''__name__'' labelSet)"
  have rec: "FindLabels_loop ext warp token matchers ?S (calls @ [?c]) = (Inr labelSet', calls')"
    using Cons.prems ms g0 by (simp add: FindGTS_def Let_def split: prod.splits)
  from Cons.IH [OF rec] obtain new where new: "?S \<subseteq> labelSet'"
    "calls' = (calls @ [?c]) @ new"
    "\<forall>i<length new. \<forall>gtss. warp ((calls @ [?c]) @ take i new) (new ! i) = Inr gtss \<longrightarrow>
           (\<forall>gts\<in>set gtss. dom (Attrs gts) \<subseteq> labelSet')"
    by blast
  have sub: "labelSet \<subseteq> labelSet'"
    using new(1) by (auto simp: FindLabels_gts_loop_eq)
  have first: "\<forall>gts\<in>set gtss0. dom (Attrs gts) \<subseteq> labelSet'"
    using new(1) by (auto simp: FindLabels_gts_loop_eq)
  have "\<forall>i<length (?c # new). \<forall>gtss. warp (calls @ take i (?c # new)) ((?c # new) ! i) = Inr gtss \<longrightarrow>
           (\<forall>gts\<in>set gtss. dom (Attrs gts) \<subseteq> labelSet')"
  proof (intro allI impI)
    fix i gtss
    assume i: "i < length (?c # new)"
      and w: "warp (calls @ take i (?c # new)) ((?c # new) ! i) = Inr gtss"
    show "\<forall>gts\<in>set gtss. dom (Attrs gts) \<subseteq> labelSet'"
    proof (cases i)
      case 0
      then have "gtss = gtss0" using w g0 by simp
      then show ?thesis using first by simp
    next
      case (Suc j)
      then have "j < length new" "warp ((calls @ [?c]) @ take j new) (new ! j) = Inr gtss"
        using i w by simp_all
      then show ?thesis using new(3) by blast
    qed
  qed
  moreover have "calls' = calls @ (?c # new)" using new(2) by simp
  ultimately show ?case using sub by blast
qed

lemma FindLabels_loop_finite:
  assumes "FindLabels_loop ext warp token matchers labelSet calls = (Inr labelSet', calls')"
    and "finite labelSet"
    and "\<forall>h c gtss. warp h c = Inr gtss \<longrightarrow>
           (\<forall>gts\<in>set gtss. finite (dom (Labels gts)) \<and> finite (dom (Attrs gts)))"
  shows "finite labelSet'"
  using assms(1,2)
proof (induction matchers arbitrary: labelSet calls)
  case Nil
  then show ?case by simp
next
  case (Cons e matchers)
  from Cons.prems(1) obtain ms where ms: "ParseMetricSelector ext e = Inr ms"
    by (cases "ParseMetricSelector ext e") simp_all
  let ?c = "(token, buildWarp10Selector ext (fst (processMatchers ms)) (snd (processMatchers ms)),
             zeroTime)"
  from Cons.prems(1) ms obtain gtss0 where g0: "warp calls ?c = Inr gtss0"
    by (cases "warp calls ?c") (simp_all add: FindGTS_def Let_def split: prod.splits)
  let ?S = "FindLabels_gts_loop gtss0 (insert ''__name__'' labelSet)"
  have rec: "FindLabels_loop ext warp token matchers ?S (calls @ [?c]) = (Inr labelSet', calls')"
    using Cons.prems(1) ms g0 by (simp add: FindGTS_def Let_def split: prod.splits)
  have "\<forall>gts\<in>set gtss0. finite (dom (Labels gts)) \<and> finite (dom (Attrs gts))"
    using assms(3) g0 by blast
  then have "finite ?S"
    using Cons.prems(2) by (simp add: FindLabels_gts_loop_eq)
  then show ?case using Cons.IH [OF rec] by simp
qed

text \<open>
  Claim C6. FindLabelsValues uses the first matcher expression only: the answer and the
  queries sent are the same whatever expressions follow the first and whatever the parser
  would make of any other expression; it never sends more than one query; and for an
  authorised request with a label whose first expression parses, it sends exactly one
  query, for the selector built from that expression.
\<close>

theorem FindLabelsValues_first_expression_only:
  "FindLabelsValues ext warp (r\<lparr>req_form_match := e # rest\<rparr>)
     = FindLabelsValues ext warp (r\<lparr>req_form_match := [e]\<rparr>)
   \<and> (e' \<noteq> e \<longrightarrow>
        FindLabelsValues (ext\<lparr>ParseMetricSelector := (ParseMetricSelector ext)(e' := x)\<rparr>) warp
            (r\<lparr>req_form_match := e # rest\<rparr>)
          = FindLabelsValues ext warp (r\<lparr>req_form_match := e # rest\<rparr>))
   \<and> length (snd (FindLabelsValues ext warp r)) \<le> 1
   \<and> (req_token r \<noteq> '''' \<and> req_label r \<noteq> '''' \<and> \<not> req_parse_form_fails r
        \<and> req_form_match r = e # rest \<and> ParseMetricSelector ext e = Inr ms
      \<longrightarrow> snd (FindLabelsValues ext warp r) =
            [(req_token r,
              buildWarp10Selector ext (fst (processMatchers ms)) (snd (processMatchers ms)),
              zeroTime)])"
proof (intro conjI impI)
  show "FindLabelsValues ext warp (r\<lparr>req_form_match := e # rest\<rparr>)
     = FindLabelsValues ext warp (r\<lparr>req_form_match := [e]\<rparr>)"
    by (simp add: FindLabelsValues_def Let_def)
next
  assume "e' \<noteq> e"
  then show "FindLabelsValues (ext\<lparr>ParseMetricSelector := (ParseMetricSelector ext)(e' := x)\<rparr>) warp
            (r\<lparr>req_form_match := e # rest\<rparr>)
          = FindLabelsValues ext warp (r\<lparr>req_form_match := e # rest\<rparr>)"
    by (simp add: FindLabelsValues_def Let_def split: sum.splits prod.splits)
next
  show "length (snd (FindLabelsValues ext warp r)) \<le> 1"
    using FindLabelsValues_calls [of ext warp r]
  proof
    assume "snd (FindLabelsValues ext warp r) = []"
    then show ?thesis by simp
  next
    assume "\<exists>e rest ms. req_token r \<noteq> '''' \<and> req_label r \<noteq> '''' \<and> \<not> req_parse_form_fails r
      \<and> req_form_match r = e # rest \<and> ParseMetricSelector ext e = Inr ms"
    then obtain e rest ms where "req_token r \<noteq> ''''" "req_label r \<noteq> ''''"
      "\<not> req_parse_form_fails r" "req_form_match r = e # rest" "ParseMetricSelector ext e = Inr ms"
      by blast
    then show ?thesis
      by (simp add: FindLabelsValues_valid [of r e rest ext ms warp] Let_def split: sum.splits)
  qed
next
  assume "req_token r \<noteq> '''' \<and> req_label r \<noteq> '''' \<and> \<not> req_parse_form_fails r
        \<and> req_form_match r = e # rest \<and> ParseMetricSelector ext e = Inr ms"
  then show "snd (FindLabelsValues ext warp r) =
            [(req_token r,
              buildWarp10Selector ext (fst (processMatchers ms)) (snd (processMatchers ms)),
              zeroTime)]"
    by (simp add: FindLabelsValues_valid [of r e rest ext ms warp] Let_def split: sum.splits)
qed

theorem FindLabelsValues_first_expression_only_witness:
  "snd (FindLabelsValues example_ext example_warp example_request)
     = [(''READ'', ''{env=prod}'', zeroTime)]"
proof -
  note t = FindLabelsValues_first_expression_only
    [where ext = example_ext and warp = example_warp and r = example_request
       and e = "''{env='prod'}''" and rest = "[''http_requests_total'']"
       and ms = "[\<lparr>Type = MatchEqual, Name = ''env'', Value = ''prod''\<rparr>]"
       and e' = "''http_requests_total''" and x = "Inl ''unused''"]
  show ?thesis
    using t [THEN conjunct2, THEN conjunct2, THEN conjunct2]
    by (simp add: example_request_def example_ext_def example_ParseMetricSelector_def
        example_buildWarp10Selector_def processMatchers_def processMatchers_step_def)
qed

text \<open>
  Claim C7. FindLabels on a request without matcher expressions sends no query to the
  backend, and for an authorised request whose form parses it answers status 200 with
  \<open>success\<close> and an empty data list.
\<close>

theorem FindLabels_no_matchers:
  assumes "req_form_match r = []"
  shows "snd (FindLabels ext warp r) = []
       \<and> (req_token r \<noteq> '''' \<and> \<not> req_parse_form_fails r
          \<longrightarrow> fst (FindLabels ext warp r) = FindLabelsResponse 200 ''success'' [])"
  using assms by (simp add: FindLabels_def Let_def)

theorem FindLabels_no_matchers_witness:
  "FindLabels example_ext example_warp (example_request\<lparr>req_form_match := []\<rparr>)
     = (FindLabelsResponse 200 ''success'' [], [])"
  using FindLabels_no_matchers
    [where r = "example_request\<lparr>req_form_match := []\<rparr>" and ext = example_ext
       and warp = example_warp]
  by (simp add: example_request_def prod_eq_iff)

text \<open>
  Claim C10. FindLabelsValues never reads the attributes of a record: replacing the
  attributes of every returned record changes neither the answer nor the queries. On
  success the data are the deduplicated class names when the label is \<open>__name__\<close>, and
  otherwise the deduplicated values that the records' labels give to the requested label,
  a record without it contributing nothing. FindLabels, in contrast, returns every
  attribute key of every record the backend returned (the enumeration of the label set
  lists exactly its elements, and the backend's maps are finite).
\<close>

theorem FindLabelsValues_reads_labels_only:
  "FindLabelsValues ext (\<lambda>h c. map_sum id (map (\<lambda>gts. gts\<lparr>Attrs := f gts\<rparr>)) (warp h c)) r
     = FindLabelsValues ext warp r
   \<and> (req_token r \<noteq> '''' \<and> req_label r \<noteq> '''' \<and> \<not> req_parse_form_fails r
        \<and> req_form_match r = e # rest \<and> ParseMetricSelector ext e = Inr ms
        \<and> warp [] (req_token r,
                    buildWarp10Selector ext (fst (processMatchers ms)) (snd (processMatchers ms)),
                    zeroTime) = Inr gtss
      \<longrightarrow> fst (FindLabelsValues ext warp r) =
            FindLabelsResponse 200 ''success''
              (unique ext (if req_label r = ''__name__'' then map Class gtss
                           else List.map_filter (\<lambda>gts. Labels gts (req_label r)) gtss)))
   \<and> ((\<forall>S. finite S \<longrightarrow> set (range_keys ext S) = S)
        \<and> (\<forall>h c gtss. warp h c = Inr gtss \<longrightarrow>
              (\<forall>gts\<in>set gtss. finite (dom (Labels gts)) \<and> finite (dom (Attrs gts))))
        \<and> fst (FindLabels ext warp r) = FindLabelsResponse code status data
        \<and> i < length (snd (FindLabels ext warp r))
        \<and> warp (take i (snd (FindLabels ext warp r))) (snd (FindLabels ext warp r) ! i) = Inr gtss'
        \<and> gts \<in> set gtss' \<and> key \<in> dom (Attrs gts)
      \<longrightarrow> key \<in> set data)"
proof (intro conjI impI)
  let ?warp' = "\<lambda>h c. map_sum id (map (\<lambda>gts. gts\<lparr>Attrs := f gts\<rparr>)) (warp h c)"
  show "FindLabelsValues ext ?warp' r = FindLabelsValues ext warp r"
    by (simp add: FindLabelsValues_def FindGTS_def Let_def FindLabelsValues_loop_Attrs
        split: sum.splits prod.splits)
next
  assume "req_token r \<noteq> '''' \<and> req_label r \<noteq> '''' \<and> \<not> req_parse_form_fails r
        \<and> req_form_match r = e # rest \<and> ParseMetricSelector ext e = Inr ms
        \<and> warp [] (req_token r,
                    buildWarp10Selector ext (fst (processMatchers ms)) (snd (processMatchers ms)),
                    zeroTime) = Inr gtss"
  then show "fst (FindLabelsValues ext warp r) =
            FindLabelsResponse 200 ''success''
              (unique ext (if req_label r = ''__name__'' then map Class gtss
                           else List.map_filter (\<lambda>gts. Labels gts (req_label r)) gtss))"
    by (simp add: FindLabelsValues_valid [of r e rest ext ms warp] Let_def
        FindLabelsValues_loop_eq)
next
  let ?calls = "snd (FindLabels ext warp r)"
  assume a: "(\<forall>S. finite S \<longrightarrow> set (range_keys ext S) = S)
        \<and> (\<forall>h c gtss. warp h c = Inr gtss \<longrightarrow>
              (\<forall>gts\<in>set gtss. finite (dom (Labels gts)) \<and> finite (dom (Attrs gts))))
        \<and> fst (FindLabels ext warp r) = FindLabelsResponse code status data
        \<and> i < length ?calls
        \<and> warp (take i ?calls) (?calls ! i) = Inr gtss'
        \<and> gts \<in> set gtss' \<and> key \<in> dom (Attrs gts)"
  have ne: "?calls \<noteq> []" using a by auto
  have valid: "req_token r \<noteq> ''''" "\<not> req_parse_form_fails r" "req_form_match r \<noteq> []"
    using ne by (auto simp: FindLabels_def Let_def split: if_splits)
  obtain res calls' where loop:
    "FindLabels_loop ext warp (req_token r) (req_form_match r) {} [] = (res, calls')"
    by (cases "FindLabels_loop ext warp (req_token r) (req_form_match r) {} []")
  have F: "FindLabels ext warp r =
      (case res of Inl resp \<Rightarrow> (resp, calls')
       | Inr labelSet \<Rightarrow> (FindLabelsResponse 200 ''success'' (range_keys ext labelSet), calls'))"
    using valid loop by (simp add: FindLabels_def Let_def split: sum.splits)
  show "key \<in> set data"
  proof (cases res)
    case (Inl resp)
    have "\<And>ms S cs resp cs'. FindLabels_loop ext warp (req_token r) ms S cs = (Inl resp, cs')
        \<Longrightarrow> \<exists>n m. resp = ErrorResponse n m"
    proof -
      fix ms S cs resp cs'
      show "FindLabels_loop ext warp (req_token r) ms S cs = (Inl resp, cs')
        \<Longrightarrow> \<exists>n m. resp = ErrorResponse n m"
        by (induction ms arbitrary: S cs)
           (auto simp: FindGTS_def Let_def split: sum.splits prod.splits)
    qed
    then obtain n m where "resp = ErrorResponse n m" using loop Inl by blast
    then show ?thesis using a F Inl by simp
  next
    case (Inr labelSet')
    then have d: "data = range_keys ext labelSet'" "?calls = calls'"
      using a F by simp_all
    have "finite labelSet'"
      using FindLabels_loop_finite [of ext warp "req_token r" "req_form_match r" "{}" "[]"
          labelSet' calls'] loop Inr a by simp
    then have s: "set data = labelSet'" using a d(1) by simp
    from FindLabels_loop_inv [of ext warp "req_token r" "req_form_match r" "{}" "[]"
          labelSet' calls'] loop Inr
    have "\<forall>i<length calls'. \<forall>gtss. warp (take i calls') (calls' ! i) = Inr gtss \<longrightarrow>
           (\<forall>gts\<in>set gtss. dom (Attrs gts) \<subseteq> labelSet')"
      by simp
    then have "dom (Attrs gts) \<subseteq> labelSet'"
      using a d(2) by metis
    then show ?thesis using a s by blast
  qed
qed

theorem FindLabelsValues_reads_labels_only_witness:
  "fst (FindLabelsValues example_ext example_warp example_request)
     = FindLabelsResponse 200 ''success'' []
   \<and> ''dc'' \<in> set (resp_data (fst (FindLabels example_ext example_warp example_request)))"
proof -
  note t = FindLabelsValues_reads_labels_only
    [where ext = example_ext and warp = example_warp and r = example_request
       and e = "''{env='prod'}''" and rest = "[''http_requests_total'']"
       and ms = "[\<lparr>Type = MatchEqual, Name = ''env'', Value = ''prod''\<rparr>]"
       and gtss = example_series and f = "\<lambda>gts. Map.empty"
       and code = 200 and status = "''success''"
       and data = "resp_data (fst (FindLabels example_ext example_warp example_request))"
       and i = 0 and gtss' = example_series and gts = "hd example_series" and key = "''dc''"]
  have vals: "fst (FindLabelsValues example_ext example_warp example_request)
     = FindLabelsResponse 200 ''success'' []"
    using t [THEN conjunct2, THEN conjunct1]
    by (simp add: example_request_def example_ext_def example_ParseMetricSelector_def
        example_warp_def example_series_def List.map_filter_simps)
  have keys: "''dc'' \<in> set (resp_data (fst (FindLabels example_ext example_warp example_request)))"
    using t [THEN conjunct2, THEN conjunct2]
    by (simp add: example_request_def example_ext_def example_ParseMetricSelector_def
        example_warp_def example_series_def FindLabels_def FindGTS_def Let_def
        processMatchers_def processMatchers_step_def)
  show ?thesis using vals keys by simp
qed

end
